theory Spec2Isabelle
  imports Complex_Main "HOL-Library.Char_ord" "HOL-Library.List_Lexorder"
begin

section \<open>Outcomes of a notebook expression\<close>

text \<open>
  The program is the notebook "Cubeviz: weigh a black hole". Its derivations are
  straight-line expressions over \<^verbatim>\<open>astropy.units\<close> quantities, one notebook cell each.
  Every cell is embedded as a function of the variables that are free in it.

  Python floats are modelled as real numbers (no rounding, no overflow). A float
  operation that numpy answers with \<^verbatim>\<open>nan\<close> or \<^verbatim>\<open>inf\<close> and a warning (division by zero,
  a negative base under a non-integer exponent) raises nothing; its outcome is
  \<open>NonFinite\<close>, and the model does not follow a non-finite value any further.
  The exceptions are the ones the notebook and the unit library raise.

  The black hole mass and the Doppler conversion of a wavelength are embedded a second
  time over IEEE doubles, for the two properties that depend on the rounding.
\<close>

datatype error =
    Exception string
  | IndexError
  | UnitConversionError
  | UnitsError

fun error_class :: "error \<Rightarrow> string" where
  "error_class (Exception msg) = ''Exception''"
| "error_class IndexError = ''IndexError''"
| "error_class UnitConversionError = ''UnitConversionError''"
| "error_class UnitsError = ''UnitsError''"

datatype 'a outcome = Raises error | NonFinite | Returns 'a

fun obind :: "'a outcome \<Rightarrow> ('a \<Rightarrow> 'b outcome) \<Rightarrow> 'b outcome" where
  "obind (Raises e) f = Raises e"
| "obind NonFinite f = NonFinite"
| "obind (Returns x) f = f x"

fun raised :: "'a outcome \<Rightarrow> error option" where
  \<comment> \<open>the exception an outcome raises, if it raises one\<close>
  "raised (Raises e) = Some e"
| "raised NonFinite = None"
| "raised (Returns x) = None"

definition float_div :: "real \<Rightarrow> real \<Rightarrow> real outcome" where
  \<comment> \<open>numpy true division: a zero divisor gives inf or nan, not an exception\<close>
  "float_div x y = (if y = 0 then NonFinite else Returns (x / y))"

definition float_pow :: "real \<Rightarrow> real \<Rightarrow> real outcome" where
  \<comment> \<open>numpy power on floats\<close>
  "float_pow x y =
     (if 0 < x then Returns (x powr y)
      else if x = 0 then
        (if 0 < y then Returns 0 else if y = 0 then Returns 1 else NonFinite)
      else if of_int \<lfloor>y\<rfloor> = y then Returns (x powi \<lfloor>y\<rfloor>)
      else NonFinite)"

definition py_index :: "'a list \<Rightarrow> int \<Rightarrow> 'a outcome" where
  \<comment> \<open>\<^verbatim>\<open>xs[i]\<close>: an index below 0 is taken from the end of the list\<close>
  "py_index xs i =
     (if 0 \<le> i \<and> i < int (length xs) then Returns (xs ! nat i)
      else if - int (length xs) \<le> i \<and> i < 0 then Returns (xs ! nat (int (length xs) + i))
      else Raises IndexError)"


section \<open>Units and quantities of the unit library\<close>

text \<open>
  A unit is its scale relative to the SI base units together with the exponents of
  its physical dimension (length, mass, time, angle; the library keeps the radian as
  a base unit). Two units are convertible when their dimensions agree. The scales
  of the named units and the value of \<open>G\<close> are the ones the library defines.
  Arithmetic on quantities multiplies, divides and raises the units along with the
  values; only addition, subtraction and \<^verbatim>\<open>to\<close> compare dimensions, and raise
  \<^verbatim>\<open>UnitConversionError\<close> when they differ.
\<close>

record punit =
  scale :: real
  length_exp :: real
  mass_exp :: real
  time_exp :: real
  angle_exp :: real

record quantity =
  val :: real
  unit :: punit

definition same_dimension :: "punit \<Rightarrow> punit \<Rightarrow> bool" where
  "same_dimension a b \<longleftrightarrow>
     length_exp a = length_exp b \<and> mass_exp a = mass_exp b \<and>
     time_exp a = time_exp b \<and> angle_exp a = angle_exp b"

definition unit_mul :: "punit \<Rightarrow> punit \<Rightarrow> punit" where
  "unit_mul a b =
     \<lparr>scale = scale a * scale b,
      length_exp = length_exp a + length_exp b,
      mass_exp = mass_exp a + mass_exp b,
      time_exp = time_exp a + time_exp b,
      angle_exp = angle_exp a + angle_exp b\<rparr>"

definition unit_div :: "punit \<Rightarrow> punit \<Rightarrow> punit" where
  "unit_div a b =
     \<lparr>scale = scale a / scale b,
      length_exp = length_exp a - length_exp b,
      mass_exp = mass_exp a - mass_exp b,
      time_exp = time_exp a - time_exp b,
      angle_exp = angle_exp a - angle_exp b\<rparr>"

definition unit_pow :: "punit \<Rightarrow> real \<Rightarrow> punit" where
  \<comment> \<open>a unit raised to a float exponent\<close>
  "unit_pow a p =
     \<lparr>scale = scale a powr p,
      length_exp = length_exp a * p,
      mass_exp = mass_exp a * p,
      time_exp = time_exp a * p,
      angle_exp = angle_exp a * p\<rparr>"

definition unit_pow_int :: "punit \<Rightarrow> nat \<Rightarrow> punit" where
  \<comment> \<open>a unit raised to a non-negative int literal\<close>
  "unit_pow_int a n =
     \<lparr>scale = scale a ^ n,
      length_exp = length_exp a * real n,
      mass_exp = mass_exp a * real n,
      time_exp = time_exp a * real n,
      angle_exp = angle_exp a * real n\<rparr>"

definition dimensionless_unscaled :: punit where
  "dimensionless_unscaled =
     \<lparr>scale = 1, length_exp = 0, mass_exp = 0, time_exp = 0, angle_exp = 0\<rparr>"

definition u_km :: punit where
  "u_km = \<lparr>scale = 1000, length_exp = 1, mass_exp = 0, time_exp = 0, angle_exp = 0\<rparr>"

definition u_um :: punit where
  "u_um = \<lparr>scale = 1 / 1000000, length_exp = 1, mass_exp = 0, time_exp = 0, angle_exp = 0\<rparr>"

definition u_AA :: punit where
  "u_AA = \<lparr>scale = 1 / 10000000000, length_exp = 1, mass_exp = 0, time_exp = 0,
          angle_exp = 0\<rparr>"

definition u_pc :: punit where
  "u_pc = \<lparr>scale = 30856775814913674, length_exp = 1, mass_exp = 0, time_exp = 0,
          angle_exp = 0\<rparr>"

definition u_Mpc :: punit where
  "u_Mpc = \<lparr>scale = 1000000 * 30856775814913674, length_exp = 1, mass_exp = 0,
           time_exp = 0, angle_exp = 0\<rparr>"

definition u_s :: punit where
  "u_s = \<lparr>scale = 1, length_exp = 0, mass_exp = 0, time_exp = 1, angle_exp = 0\<rparr>"

definition u_Hz :: punit where
  "u_Hz = \<lparr>scale = 1, length_exp = 0, mass_exp = 0, time_exp = - 1, angle_exp = 0\<rparr>"

definition u_eV :: punit where
  "u_eV = \<lparr>scale = 1.602176634 / 10 ^ 19, length_exp = 2, mass_exp = 1,
          time_exp = - 2, angle_exp = 0\<rparr>"

definition u_M_sun :: punit where
  "u_M_sun = \<lparr>scale = 1988409870698051 * 10 ^ 15, length_exp = 0, mass_exp = 1,
             time_exp = 0, angle_exp = 0\<rparr>"

definition u_rad :: punit where
  "u_rad = \<lparr>scale = 1, length_exp = 0, mass_exp = 0, time_exp = 0, angle_exp = 1\<rparr>"

definition u_arcsec :: punit where
  "u_arcsec = \<lparr>scale = pi / 648000, length_exp = 0, mass_exp = 0, time_exp = 0,
              angle_exp = 1\<rparr>"

definition u_km_s :: punit where
  \<comment> \<open>\<^verbatim>\<open>u.km / u.s\<close>\<close>
  "u_km_s = unit_div u_km u_s"

definition G :: quantity where
  \<comment> \<open>\<^verbatim>\<open>astropy.constants.G\<close>, in m3 / (kg s2)\<close>
  "G = \<lparr>val = 6.6743 / 10 ^ 11,
        unit = \<lparr>scale = 1, length_exp = 3, mass_exp = - 1, time_exp = - 2,
                angle_exp = 0\<rparr>\<rparr>"

definition si :: "quantity \<Rightarrow> real" where
  \<comment> \<open>the magnitude of a quantity in SI base units\<close>
  "si q = val q * scale (unit q)"

definition scalar_mul :: "real \<Rightarrow> quantity \<Rightarrow> quantity" where
  \<comment> \<open>a plain number times a quantity (either order)\<close>
  "scalar_mul k q = \<lparr>val = k * val q, unit = unit q\<rparr>"

definition scalar_div :: "quantity \<Rightarrow> real \<Rightarrow> quantity outcome" where
  \<comment> \<open>a quantity divided by a plain number\<close>
  "scalar_div q k =
     obind (float_div (val q) k) (\<lambda>v. Returns \<lparr>val = v, unit = unit q\<rparr>)"

definition q_mul :: "quantity \<Rightarrow> quantity \<Rightarrow> quantity" where
  "q_mul a b = \<lparr>val = val a * val b, unit = unit_mul (unit a) (unit b)\<rparr>"

definition q_truediv :: "quantity \<Rightarrow> quantity \<Rightarrow> quantity outcome" where
  "q_truediv a b =
     obind (float_div (val a) (val b))
       (\<lambda>v. Returns \<lparr>val = v, unit = unit_div (unit a) (unit b)\<rparr>)"

definition q_pow :: "quantity \<Rightarrow> real \<Rightarrow> quantity outcome" where
  \<comment> \<open>\<^verbatim>\<open>q ** p\<close> for a float literal p\<close>
  "q_pow a p =
     obind (float_pow (val a) p) (\<lambda>v. Returns \<lparr>val = v, unit = unit_pow (unit a) p\<rparr>)"

definition q_pow_int :: "quantity \<Rightarrow> nat \<Rightarrow> quantity" where
  \<comment> \<open>\<^verbatim>\<open>q ** n\<close> for a non-negative int literal n\<close>
  "q_pow_int a n = \<lparr>val = val a ^ n, unit = unit_pow_int (unit a) n\<rparr>"

definition q_to :: "quantity \<Rightarrow> punit \<Rightarrow> quantity outcome" where
  \<comment> \<open>\<^verbatim>\<open>q.to(u)\<close> without equivalencies\<close>
  "q_to q u =
     (if same_dimension (unit q) u
      then Returns \<lparr>val = val q * (scale (unit q) / scale u), unit = u\<rparr>
      else Raises UnitConversionError)"

definition q_to_value :: "quantity \<Rightarrow> punit \<Rightarrow> real outcome" where
  \<comment> \<open>\<^verbatim>\<open>q.to_value(u)\<close>\<close>
  "q_to_value q u = obind (q_to q u) (\<lambda>r. Returns (val r))"

definition q_add :: "quantity \<Rightarrow> quantity \<Rightarrow> quantity outcome" where
  \<comment> \<open>the right operand is converted to the unit of the left one\<close>
  "q_add a b = obind (q_to_value b (unit a))
     (\<lambda>v. Returns \<lparr>val = val a + v, unit = unit a\<rparr>)"

definition q_sub :: "quantity \<Rightarrow> quantity \<Rightarrow> quantity outcome" where
  "q_sub a b = obind (q_to_value b (unit a))
     (\<lambda>v. Returns \<lparr>val = val a - v, unit = unit a\<rparr>)"


section \<open>The relativistic Doppler equivalency of the unit library\<close>

text \<open>
  \<^verbatim>\<open>x.to(u.km / u.s, u.doppler_relativistic(rest))\<close>. Building the equivalency checks
  that \<open>rest\<close> is a spectral quantity (wavelength, frequency, energy or wavenumber)
  and raises \<^verbatim>\<open>UnitsError\<close> otherwise. The conversion then takes a velocity as it is,
  and a wavelength, frequency or energy through the Doppler formula, with \<open>rest\<close>
  brought to the same kind through the spectral equivalency; any other operand
  raises \<^verbatim>\<open>UnitConversionError\<close>. The library's formula for a wavelength \<open>x\<close> is
  \<^verbatim>\<open>(x**2 - restwav**2) / (restwav**2 + x**2) * ckms\<close>, both in angstrom; for a
  frequency (in hertz) or an energy (in electronvolt) it is
  \<^verbatim>\<open>(rest**2 - x**2) / (rest**2 + x**2) * ckms\<close>.
\<close>

datatype spectral_kind = Wavelength | Frequency | Energy | Wavenumber | AngularWavenumber

definition has_exps :: "punit \<Rightarrow> real \<Rightarrow> real \<Rightarrow> real \<Rightarrow> real \<Rightarrow> bool" where
  "has_exps a l m t r \<longleftrightarrow>
     length_exp a = l \<and> mass_exp a = m \<and> time_exp a = t \<and> angle_exp a = r"

definition spectral_kind_of :: "punit \<Rightarrow> spectral_kind option" where
  "spectral_kind_of a =
     (if has_exps a 1 0 0 0 then Some Wavelength
      else if has_exps a 0 0 (- 1) 0 then Some Frequency
      else if has_exps a 2 1 (- 2) 0 then Some Energy
      else if has_exps a (- 1) 0 0 0 then Some Wavenumber
      else if has_exps a (- 1) 0 0 1 then Some AngularWavenumber
      else None)"

definition c_si :: real where
  \<comment> \<open>speed of light, m / s\<close>
  "c_si = 299792458"

definition ckms :: real where
  \<comment> \<open>speed of light, km / s\<close>
  "ckms = 299792.458"

definition h_si :: real where
  \<comment> \<open>Planck constant, J s\<close>
  "h_si = 6.62607015 / 10 ^ 34"

fun rest_wavelength :: "spectral_kind \<Rightarrow> real \<Rightarrow> real outcome" where
  \<comment> \<open>a spectral SI magnitude as a wavelength in metres\<close>
  "rest_wavelength Wavelength x = Returns x"
| "rest_wavelength Frequency x = float_div c_si x"
| "rest_wavelength Energy x = float_div (h_si * c_si) x"
| "rest_wavelength Wavenumber x = float_div 1 x"
| "rest_wavelength AngularWavenumber x = float_div (2 * pi) x"

fun rest_frequency :: "spectral_kind \<Rightarrow> real \<Rightarrow> real outcome" where
  \<comment> \<open>a spectral SI magnitude as a frequency in hertz\<close>
  "rest_frequency Wavelength x = float_div c_si x"
| "rest_frequency Frequency x = Returns x"
| "rest_frequency Energy x = Returns (x / h_si)"
| "rest_frequency Wavenumber x = Returns (c_si * x)"
| "rest_frequency AngularWavenumber x = Returns (c_si * x / (2 * pi))"

fun rest_energy :: "spectral_kind \<Rightarrow> real \<Rightarrow> real outcome" where
  \<comment> \<open>a spectral SI magnitude as an energy in joules\<close>
  "rest_energy Wavelength x = float_div (h_si * c_si) x"
| "rest_energy Frequency x = Returns (h_si * x)"
| "rest_energy Energy x = Returns x"
| "rest_energy Wavenumber x = Returns (h_si * c_si * x)"
| "rest_energy AngularWavenumber x = Returns (h_si * c_si * x / (2 * pi))"

definition doppler_relativistic :: "quantity \<Rightarrow> quantity outcome" where
  \<comment> \<open>the equivalency is represented by its rest quantity\<close>
  "doppler_relativistic rest =
     (case spectral_kind_of (unit rest) of
        None \<Rightarrow> Raises UnitsError
      | Some k \<Rightarrow> Returns rest)"

definition doppler_ratio :: "real \<Rightarrow> real \<Rightarrow> quantity outcome" where
  \<comment> \<open>\<^verbatim>\<open>(a**2 - b**2) / (b**2 + a**2) * ckms\<close>, a velocity in km / s\<close>
  "doppler_ratio a b =
     obind (float_div (a\<^sup>2 - b\<^sup>2) (b\<^sup>2 + a\<^sup>2))
       (\<lambda>r. Returns \<lparr>val = r * ckms, unit = u_km_s\<rparr>)"

definition to_km_s :: "quantity \<Rightarrow> quantity \<Rightarrow> quantity outcome" where
  \<comment> \<open>\<^verbatim>\<open>x.to(u.km / u.s, equivalency)\<close>, the equivalency given by its rest quantity\<close>
  "to_km_s x rest =
     (if same_dimension (unit x) u_km_s then q_to x u_km_s
      else case (spectral_kind_of (unit x), spectral_kind_of (unit rest)) of
        (Some Wavelength, Some k) \<Rightarrow>
          obind (rest_wavelength k (si rest))
            (\<lambda>r. doppler_ratio (si x / scale u_AA) (r / scale u_AA))
      | (Some Frequency, Some k) \<Rightarrow>
          obind (rest_frequency k (si rest))
            (\<lambda>r. doppler_ratio (r / scale u_Hz) (si x / scale u_Hz))
      | (Some Energy, Some k) \<Rightarrow>
          obind (rest_energy k (si rest))
            (\<lambda>r. doppler_ratio (r / scale u_eV) (si x / scale u_eV))
      | _ \<Rightarrow> Raises UnitConversionError)"

definition to_doppler_velocity :: "quantity \<Rightarrow> quantity \<Rightarrow> quantity outcome" where
  \<comment> \<open>\<^verbatim>\<open>x.to(u.km / u.s, u.doppler_relativistic(rest))\<close>\<close>
  "to_doppler_velocity x rest =
     obind (doppler_relativistic rest) (\<lambda>equivalency. to_km_s x equivalency)"


section \<open>The cells of the notebook\<close>

subsection \<open>Velocity dispersion from the Line Analysis plugin\<close>

text \<open>
  An entry of \<^verbatim>\<open>line_analysis.get_results()\<close> is a dictionary with the keys
  \<^verbatim>\<open>'result'\<close> and \<^verbatim>\<open>'unit'\<close>; the record holds \<^verbatim>\<open>float(e['result'])\<close> and
  \<^verbatim>\<open>u.Unit(e['unit'])\<close>. \<open>choices\<close> is \<^verbatim>\<open>line_analysis.spectral_subset.choices\<close>.
\<close>

record result_entry =
  entry_result :: real
  entry_unit :: punit

definition entry_quantity :: "result_entry \<Rightarrow> quantity" where
  "entry_quantity e = \<lparr>val = entry_result e, unit = entry_unit e\<rparr>"

definition select_message :: string where
  "select_message =
     ''Please select a spectral region in Cubeviz '' @
     ''centered on an emission line to '' @
     ''continue with the tutorial.''"

definition velocity_dispersion :: "string list \<Rightarrow> result_entry list \<Rightarrow> quantity outcome" where
  "velocity_dispersion choices line_analysis_results =
     (let available_spectral_subsets = int (length choices) - 1 in
      if available_spectral_subsets \<noteq> 0 then
        obind (py_index line_analysis_results 2) (\<lambda>sigma_entry.
        let sigma_width = entry_quantity sigma_entry in
        obind (py_index line_analysis_results (- 1)) (\<lambda>center.
        let centroid_wavelength = entry_quantity center in
        obind (q_add centroid_wavelength sigma_width) (\<lambda>shifted.
        to_doppler_velocity shifted centroid_wavelength)))
      else Raises (Exception select_message))"

subsection \<open>Black hole mass and its relative error\<close>

definition bh_mass :: "quantity \<Rightarrow> quantity outcome" where
  \<comment> \<open>\<^verbatim>\<open>1.349e8 * u.M_sun * (velocity_dispersion / (200 * u.km / u.s)) ** 4.02\<close>\<close>
  "bh_mass dispersion =
     obind (q_truediv dispersion \<lparr>val = 200, unit = u_km_s\<rparr>) (\<lambda>ratio.
     obind (q_pow ratio 4.02) (\<lambda>p.
     Returns (q_mul \<lparr>val = 134900000, unit = u_M_sun\<rparr> p)))"

definition log10_bh_mass_lit :: real where
  \<comment> \<open>the literature value the notebook compares with\<close>
  "log10_bh_mass_lit = 7.38"

definition fractional_error_of :: "quantity \<Rightarrow> quantity \<Rightarrow> quantity outcome" where
  \<comment> \<open>\<^verbatim>\<open>(measured - reference) / measured\<close>\<close>
  "fractional_error_of measured reference =
     obind (q_sub measured reference) (\<lambda>difference. q_truediv difference measured)"

definition fractional_error :: "quantity \<Rightarrow> real \<Rightarrow> quantity outcome" where
  \<comment> \<open>\<^verbatim>\<open>(bh_mass - u.M_sun * 10**log10_bh_mass_lit) / bh_mass\<close>\<close>
  "fractional_error mass log10_lit =
     fractional_error_of mass \<lparr>val = 10 powr log10_lit, unit = u_M_sun\<rparr>"

subsection \<open>Line centroids of the two outer regions\<close>

text \<open>
  \<open>region_keys\<close> are the keys of \<^verbatim>\<open>cubeviz.get_interactive_regions()\<close> and
  \<open>get_results s\<close> is what the plugin returns once its spatial subset is \<open>s\<close>.
\<close>

record quantity_array =
  vals :: "real list"
  array_unit :: punit

fun measure_centroids :: "(string \<Rightarrow> result_entry list) \<Rightarrow> string list \<Rightarrow> quantity list outcome" where
  "measure_centroids get_results [] = Returns []"
| "measure_centroids get_results (name # names) =
     obind (py_index (get_results name) (- 1)) (\<lambda>center.
     obind (measure_centroids get_results names) (\<lambda>others.
     Returns (entry_quantity center # others)))"

fun to_values :: "quantity list \<Rightarrow> punit \<Rightarrow> real list outcome" where
  "to_values [] a = Returns []"
| "to_values (q # qs) a =
     obind (q_to_value q a) (\<lambda>v. obind (to_values qs a) (\<lambda>vs. Returns (v # vs)))"

definition Quantity_of_list :: "quantity list \<Rightarrow> quantity_array outcome" where
  \<comment> \<open>\<^verbatim>\<open>u.Quantity(qs)\<close>: every element in the unit of the first\<close>
  "Quantity_of_list qs =
     (case qs of
        [] \<Rightarrow> Returns \<lparr>vals = [], array_unit = dimensionless_unscaled\<rparr>
      | q # rest \<Rightarrow>
          obind (to_values qs (unit q)) (\<lambda>vs. Returns \<lparr>vals = vs, array_unit = unit q\<rparr>))"

definition wavelength_centroids ::
  "string list \<Rightarrow> string list \<Rightarrow> (string \<Rightarrow> result_entry list) \<Rightarrow> quantity_array outcome" where
  "wavelength_centroids choices region_keys get_results =
     (let available_spectral_subsets = int (length choices) - 1 in
      if available_spectral_subsets \<noteq> 0 then
        (let sorted_keys = sort region_keys;
             last_two = drop (length sorted_keys - 2) sorted_keys in
         obind (measure_centroids get_results last_two) Quantity_of_list)
      else Raises (Exception select_message))"

subsection \<open>Projected distance, rotation velocity, enclosed mass and density\<close>

definition ngc7319_distance :: quantity where
  \<comment> \<open>\<^verbatim>\<open>98.1 * u.Mpc\<close>\<close>
  "ngc7319_distance = \<lparr>val = 98.1, unit = u_Mpc\<rparr>"

definition projected_distance_from_center :: "quantity \<Rightarrow> quantity \<Rightarrow> quantity outcome" where
  \<comment> \<open>\<^verbatim>\<open>(distance * angular_separation.to_value(u.rad)).to(u.pc) / 2\<close>\<close>
  "projected_distance_from_center distance angular_separation =
     obind (q_to_value angular_separation u_rad) (\<lambda>theta.
     obind (q_to (scalar_mul theta distance) u_pc) (\<lambda>s.
     scalar_div s 2))"

definition array_mean :: "quantity_array \<Rightarrow> quantity outcome" where
  "array_mean a =
     obind (float_div (sum_list (vals a)) (real (length (vals a))))
       (\<lambda>v. Returns \<lparr>val = v, unit = array_unit a\<rparr>)"

definition rotation_velocity :: "quantity_array \<Rightarrow> quantity outcome" where
  \<comment> \<open>\<^verbatim>\<open>centroids[1].to(u.km / u.s, u.doppler_relativistic(centroids.mean()))\<close>\<close>
  "rotation_velocity centroids =
     obind (py_index (vals centroids) 1) (\<lambda>v.
     obind (array_mean centroids) (\<lambda>mean.
     to_doppler_velocity \<lparr>val = v, unit = array_unit centroids\<rparr> mean))"

definition min_enclosed_mass :: "quantity \<Rightarrow> quantity \<Rightarrow> quantity outcome" where
  \<comment> \<open>\<^verbatim>\<open>(projected_distance_from_center * rotation_velocity**2 / G).to(u.M_sun)\<close>\<close>
  "min_enclosed_mass radius velocity =
     obind (q_truediv (q_mul radius (q_pow_int velocity 2)) G) (\<lambda>m. q_to m u_M_sun)"

definition density :: "quantity \<Rightarrow> quantity \<Rightarrow> quantity outcome" where
  \<comment> \<open>\<^verbatim>\<open>volume = 4/3 * np.pi * radius ** 3; density = mass / volume\<close>\<close>
  "density mass radius =
     (let volume = scalar_mul (4 / 3 * pi) (q_pow_int radius 3)
      in q_truediv mass volume)"

text \<open>
  The notebook runs the cells in order: the projected distance of one cell is the
  radius of the enclosed mass and of the sphere of the density.
\<close>

definition notebook_enclosed_mass :: "quantity \<Rightarrow> quantity \<Rightarrow> quantity \<Rightarrow> quantity outcome" where
  "notebook_enclosed_mass distance angular_separation velocity =
     obind (projected_distance_from_center distance angular_separation) (\<lambda>radius.
     min_enclosed_mass radius velocity)"

definition notebook_density :: "quantity \<Rightarrow> quantity \<Rightarrow> quantity \<Rightarrow> quantity outcome" where
  "notebook_density distance angular_separation velocity =
     obind (projected_distance_from_center distance angular_separation) (\<lambda>radius.
     obind (min_enclosed_mass radius velocity) (\<lambda>mass.
     density mass radius))"

section \<open>The cells in double precision\<close>

text \<open>
  The notebook computes in IEEE binary64. Where a property depends on the rounding,
  the cell is embedded a second time with every arithmetic operation rounded to the
  nearest double, ties to even, subnormal numbers included; a result of magnitude
  \<open>2 ^ 1024\<close> or more is an overflow to \<^verbatim>\<open>inf\<close>, the outcome \<open>NonFinite\<close>. The
  library's power function is taken as correctly rounded.
\<close>

definition round_half_even :: "real \<Rightarrow> int" where
  "round_half_even z =
     (let f = \<lfloor>z\<rfloor> in
      if z - of_int f < 1 / 2 then f
      else if 1 / 2 < z - of_int f then f + 1
      else if even f then f else f + 1)"

definition min_exponent :: int where
  "min_exponent = - 1022"

definition binade :: "real \<Rightarrow> int" where
  \<comment> \<open>the exponent of the double format at x: that of x, or of the subnormal range\<close>
  "binade x = (if \<bar>x\<bar> < 2 powi min_exponent then min_exponent else \<lfloor>log 2 \<bar>x\<bar>\<rfloor>)"

definition round_double :: "real \<Rightarrow> real" where
  \<comment> \<open>the nearest multiple of the unit in the last of 53 places\<close>
  "round_double x =
     of_int (round_half_even (x / 2 powi (binade x - 52))) * 2 powi (binade x - 52)"

definition double_of :: "real \<Rightarrow> real outcome" where
  "double_of x =
     (let y = round_double x in if 2 ^ 1024 \<le> \<bar>y\<bar> then NonFinite else Returns y)"

definition double_add :: "real \<Rightarrow> real \<Rightarrow> real outcome" where
  "double_add x y = double_of (x + y)"

definition double_sub :: "real \<Rightarrow> real \<Rightarrow> real outcome" where
  "double_sub x y = double_of (x - y)"

definition double_mul :: "real \<Rightarrow> real \<Rightarrow> real outcome" where
  "double_mul x y = double_of (x * y)"

definition double_div :: "real \<Rightarrow> real \<Rightarrow> real outcome" where
  "double_div x y = (if y = 0 then NonFinite else double_of (x / y))"

definition double_power :: "real \<Rightarrow> real \<Rightarrow> real outcome" where
  \<comment> \<open>\<open>float_pow\<close>, rounded\<close>
  "double_power x y =
     (if 0 < x then double_of (x powr y)
      else if x = 0 then
        (if 0 < y then Returns 0 else if y = 0 then Returns 1 else NonFinite)
      else if of_int \<lfloor>y\<rfloor> = y then double_of (x powi \<lfloor>y\<rfloor>)
      else NonFinite)"

definition q_truediv_double :: "quantity \<Rightarrow> quantity \<Rightarrow> quantity outcome" where
  "q_truediv_double a b =
     obind (double_div (val a) (val b))
       (\<lambda>v. Returns \<lparr>val = v, unit = unit_div (unit a) (unit b)\<rparr>)"

definition q_pow_double :: "quantity \<Rightarrow> real \<Rightarrow> quantity outcome" where
  \<comment> \<open>the float literal p is the double nearest to it\<close>
  "q_pow_double a p =
     obind (double_power (val a) (round_double p))
       (\<lambda>v. Returns \<lparr>val = v, unit = unit_pow (unit a) p\<rparr>)"

definition q_mul_double :: "quantity \<Rightarrow> quantity \<Rightarrow> quantity outcome" where
  "q_mul_double a b =
     obind (double_mul (val a) (val b))
       (\<lambda>v. Returns \<lparr>val = v, unit = unit_mul (unit a) (unit b)\<rparr>)"

definition bh_mass_double :: "quantity \<Rightarrow> quantity outcome" where
  \<comment> \<open>\<^verbatim>\<open>1.349e8 * u.M_sun * (velocity_dispersion / (200 * u.km / u.s)) ** 4.02\<close>\<close>
  "bh_mass_double dispersion =
     obind (q_truediv_double dispersion \<lparr>val = 200, unit = u_km_s\<rparr>) (\<lambda>ratio.
     obind (q_pow_double ratio 4.02) (\<lambda>p.
     q_mul_double \<lparr>val = 134900000, unit = u_M_sun\<rparr> p))"

text \<open>
  The Doppler conversion of a wavelength \<open>x\<close> with a wavelength \<open>rest\<close>. The library
  brings the two to angstrom by different routes: \<open>x\<close> is divided by the factor from
  angstrom to its unit, \<open>rest\<close> is multiplied by the factor from its unit to angstrom
  (and left as it is when that factor is within a few units in the last place of 1).
  A factor between two units is the quotient of their scales, which the library holds
  as doubles: the micrometre as \<^verbatim>\<open>1e-06\<close>, the angstrom as \<^verbatim>\<open>0.1\<close> times the \<^verbatim>\<open>1e-09\<close> of the
  nanometre. The velocity comes out in km/s, times the factor 1 from km/s to km/s.
  Operands that are not both lengths are left to the exact model.
\<close>

definition u_um_double :: punit where
  "u_um_double =
     \<lparr>scale = round_double (1 / 10 ^ 6), length_exp = 1, mass_exp = 0, time_exp = 0,
      angle_exp = 0\<rparr>"

definition u_AA_double :: punit where
  "u_AA_double =
     \<lparr>scale = round_double (round_double (1 / 10) * round_double (1 / 10 ^ 9)),
      length_exp = 1, mass_exp = 0, time_exp = 0, angle_exp = 0\<rparr>"

definition ckms_double :: real where
  \<comment> \<open>the speed of light in m/s times the factor from m/s to km/s\<close>
  "ckms_double = round_double (299792458 * round_double (1 / 1000))"

definition unit_to_double :: "punit \<Rightarrow> punit \<Rightarrow> real outcome" where
  \<comment> \<open>the factor from unit a to unit b\<close>
  "unit_to_double a b =
     (if same_dimension a b then double_div (scale a) (scale b)
      else Raises UnitConversionError)"

definition is_effectively_unity :: "real \<Rightarrow> bool" where
  "is_effectively_unity s \<longleftrightarrow> 1 - 4 / 2 ^ 53 \<le> s \<and> s \<le> 1 + 4 / 2 ^ 52"

definition to_value_double :: "quantity \<Rightarrow> punit \<Rightarrow> real outcome" where
  \<comment> \<open>\<^verbatim>\<open>q.to_value(u)\<close>\<close>
  "to_value_double q a =
     obind (unit_to_double (unit q) a) (\<lambda>s.
     if is_effectively_unity s then Returns (val q) else double_mul (val q) s)"

definition to_vel_wav_double :: "quantity \<Rightarrow> real \<Rightarrow> real outcome" where
  \<comment> \<open>\<^verbatim>\<open>(x**2 - restwav**2) / (restwav**2 + x**2) * ckms\<close>, x in angstrom\<close>
  "to_vel_wav_double rest x =
     obind (to_value_double rest u_AA_double) (\<lambda>restwav.
     obind (double_mul x x) (\<lambda>xx.
     obind (double_mul restwav restwav) (\<lambda>rr.
     obind (double_sub xx rr) (\<lambda>numerator.
     obind (double_add rr xx) (\<lambda>denominator.
     obind (double_div numerator denominator) (\<lambda>ratio.
     double_mul ratio ckms_double))))))"

definition to_doppler_velocity_double :: "quantity \<Rightarrow> quantity \<Rightarrow> quantity outcome" where
  \<comment> \<open>\<^verbatim>\<open>x.to(u.km / u.s, u.doppler_relativistic(rest))\<close>\<close>
  "to_doppler_velocity_double x rest =
     (if has_exps (unit x) 1 0 0 0 \<and> has_exps (unit rest) 1 0 0 0 then
        obind (unit_to_double u_AA_double (unit x)) (\<lambda>scale1.
        obind (double_div (val x) scale1) (\<lambda>x_angstrom.
        obind (to_vel_wav_double rest x_angstrom) (\<lambda>v.
        Returns \<lparr>val = v, unit = u_km_s\<rparr>)))
      else to_doppler_velocity x rest)"

section \<open>Properties of the black hole mass\<close>

lemma u_km_s_simps:
  "scale u_km_s = 1000" "length_exp u_km_s = 1" "mass_exp u_km_s = 0"
  "time_exp u_km_s = - 1" "angle_exp u_km_s = 0"
  by (simp_all add: u_km_s_def unit_div_def u_km_def u_s_def)

lemma bh_mass_nonneg:
  assumes "0 \<le> val sigma"
  shows "bh_mass sigma = Returns
     \<lparr>val = 134900000 * (val sigma / 200) powr 4.02,
      unit = unit_mul u_M_sun (unit_pow (unit_div (unit sigma) u_km_s) 4.02)\<rparr>"
  using assms
  by (simp add: bh_mass_def q_truediv_def float_div_def q_pow_def float_pow_def q_mul_def)

lemma bh_mass_negative:
  assumes "val sigma < 0"
  shows "bh_mass sigma = NonFinite"
  using assms
  by (simp add: bh_mass_def q_truediv_def float_div_def q_pow_def float_pow_def q_mul_def)

lemma bh_mass_unit_km_s:
  "unit_mul u_M_sun (unit_pow (unit_div u_km_s u_km_s) p) = u_M_sun"
  by (simp add: unit_mul_def unit_pow_def unit_div_def u_km_s_simps u_M_sun_def)

lemma bh_mass_dimension:
  assumes "same_dimension a u_km_s"
  shows "same_dimension (unit_mul u_M_sun (unit_pow (unit_div a u_km_s) p)) u_M_sun"
  using assms
  by (simp add: same_dimension_def unit_mul_def unit_pow_def unit_div_def u_km_s_simps
      u_M_sun_def)

lemma bh_mass_si:
  assumes "0 < v" and "0 < k"
  shows "134900000 * (v / 200) powr p * (m * (k / 1000) powr p)
       = 134900000 * m * (v * k / (200 * 1000)) powr (p::real)"
proof -
  have "(v * k / (200 * 1000)) powr p = (v / 200 * (k / 1000)) powr p"
    by simp
  also have "\<dots> = (v / 200) powr p * (k / 1000) powr p"
    by (rule powr_mult)
  finally show ?thesis by simp
qed

text \<open>
  Claim C1. For a positive velocity dispersion the black hole mass is
  \<open>1.349e8 M_sun * (sigma / (200 km/s)) ** 4.02\<close>: the cell returns a mass whose
  value is \<open>1.349e8 * (value / 200) ** 4.02\<close>, in solar masses when the dispersion
  is in km/s (as the notebook's is), and whose physical magnitude is the coefficient
  times the ratio of the dispersion to the pivot, to the power 4.02, whatever
  velocity unit the dispersion carries.
\<close>

theorem bh_mass_power_law:
  assumes "0 < val sigma_velocity"
    and "same_dimension (unit sigma_velocity) u_km_s"
    and "0 < scale (unit sigma_velocity)"
  shows "\<exists>mass. bh_mass sigma_velocity = Returns mass
      \<and> val mass = 134900000 * (val sigma_velocity / 200) powr 4.02
      \<and> same_dimension (unit mass) u_M_sun
      \<and> si mass = si \<lparr>val = 134900000, unit = u_M_sun\<rparr>
            * (si sigma_velocity / si \<lparr>val = 200, unit = u_km_s\<rparr>) powr 4.02
      \<and> (unit sigma_velocity = u_km_s \<longrightarrow> unit mass = u_M_sun)"
proof -
  let ?m = "\<lparr>val = 134900000 * (val sigma_velocity / 200) powr 4.02,
      unit = unit_mul u_M_sun (unit_pow (unit_div (unit sigma_velocity) u_km_s) 4.02)\<rparr>"
  have r: "bh_mass sigma_velocity = Returns ?m"
    using assms(1) by (simp add: bh_mass_nonneg)
  have d: "same_dimension (unit ?m) u_M_sun"
    using assms(2) by (simp add: bh_mass_dimension)
  have s: "si ?m = si \<lparr>val = 134900000, unit = u_M_sun\<rparr>
            * (si sigma_velocity / si \<lparr>val = 200, unit = u_km_s\<rparr>) powr 4.02"
    using bh_mass_si [OF assms(1) assms(3), of "4.02" "scale u_M_sun"]
    by (simp add: si_def unit_mul_def unit_pow_def unit_div_def u_km_s_simps)
  have u: "unit sigma_velocity = u_km_s \<longrightarrow> unit ?m = u_M_sun"
    by (simp add: bh_mass_unit_km_s)
  show ?thesis
    using r d s u by (intro exI [of _ ?m]) simp
qed

theorem bh_mass_power_law_witness:
  "0 < val \<lparr>val = 200, unit = u_km_s\<rparr>
   \<and> same_dimension (unit \<lparr>val = 200, unit = u_km_s\<rparr>) u_km_s
   \<and> 0 < scale (unit \<lparr>val = 200, unit = u_km_s\<rparr>)
   \<and> bh_mass \<lparr>val = 200, unit = u_km_s\<rparr> = Returns \<lparr>val = 134900000, unit = u_M_sun\<rparr>"
proof -
  let ?s = "\<lparr>val = 200, unit = u_km_s\<rparr>"
  have h1: "0 < val ?s" by simp
  have h2: "same_dimension (unit ?s) u_km_s" by (simp add: same_dimension_def)
  have h3: "0 < scale (unit ?s)" by (simp add: u_km_s_simps)
  obtain mass where m: "bh_mass ?s = Returns mass"
    "val mass = 134900000 * (val ?s / 200) powr 4.02"
    "unit ?s = u_km_s \<longrightarrow> unit mass = u_M_sun"
    using bh_mass_power_law [OF h1 h2 h3] by blast
  have "mass = \<lparr>val = 134900000, unit = u_M_sun\<rparr>"
    using m(2,3) by (cases mass) simp
  then show ?thesis using h1 h2 h3 m(1) by simp
qed

lemma bh_mass_si_value:
  assumes "0 < val s" and "0 < scale (unit s)"
  shows "si \<lparr>val = 134900000 * (val s / 200) powr p,
             unit = unit_mul u_M_sun (unit_pow (unit_div (unit s) u_km_s) p)\<rparr>
       = 134900000 * scale u_M_sun * (si s / 200000) powr p"
  using bh_mass_si [OF assms, of p "scale u_M_sun"]
  by (simp add: si_def unit_mul_def unit_pow_def unit_div_def u_km_s_simps)

lemma root50_lower:
  assumes "0 < a" and "a ^ 50 < (x::real)"
  shows "a < x powr (1 / 50)"
proof -
  have "(a ^ 50) powr (1 / 50) < x powr (1 / 50)"
    using assms by (intro powr_less_mono2) simp_all
  moreover have "(a ^ 50) powr (1 / 50) = a"
    using assms(1) powr_powr [of a 50 "1 / 50"] by (simp add: powr_numeral)
  ultimately show ?thesis by simp
qed

lemma root50_upper:
  assumes "0 < b" and "0 \<le> x" and "(x::real) < b ^ 50"
  shows "x powr (1 / 50) < b"
proof -
  have "x powr (1 / 50) < (b ^ 50) powr (1 / 50)"
    using assms by (intro powr_less_mono2) simp_all
  moreover have "(b ^ 50) powr (1 / 50) = b"
    using assms(1) powr_powr [of b 50 "1 / 50"] by (simp add: powr_numeral)
  ultimately show ?thesis by simp
qed

lemma powr_402_split: "(0.65::real) powr 4.02 = 0.65 ^ 4 * 0.65 powr (1 / 50)"
proof -
  have "(0.65::real) powr 4.02 = 0.65 powr (4 + 1 / 50)" by simp
  also have "\<dots> = 0.65 powr 4 * 0.65 powr (1 / 50)" by (rule powr_add)
  also have "(0.65::real) powr 4 = 0.65 ^ 4" by (simp add: powr_numeral)
  finally show ?thesis .
qed

lemma bh_mass_130_bounds:
  "23870000 < 134900000 * (130 / 200) powr (4.02::real)"
  "134900000 * (130 / 200) powr (4.02::real) < 23880000"
proof -
  have lo: "(0.9913::real) < 0.65 powr (1 / 50)"
    by (rule root50_lower) (simp_all add: power_divide)
  have hi: "(0.65::real) powr (1 / 50) < 0.9916"
    by (rule root50_upper) (simp_all add: power_divide)
  have e: "(130 / 200) powr (4.02::real) = 0.17850625 * 0.65 powr (1 / 50)"
    using powr_402_split by (simp add: power_divide)
  show "23870000 < 134900000 * (130 / 200) powr (4.02::real)"
    unfolding e using lo by simp
  show "134900000 * (130 / 200) powr (4.02::real) < 23880000"
    unfolding e using hi by simp
qed

lemma bh_mass_130:
  "bh_mass \<lparr>val = 130, unit = u_km_s\<rparr>
     = Returns \<lparr>val = 134900000 * (130 / 200) powr 4.02, unit = u_M_sun\<rparr>"
  by (simp add: bh_mass_nonneg bh_mass_unit_km_s)

text \<open>
  In exact arithmetic the power law is strictly increasing in a positive velocity
  dispersion. The double arithmetic of the cell keeps the order but not the
  strictness, see \<open>bh_mass_double\<close> below.
\<close>

lemma bh_mass_exact_strictly_increasing:
  assumes "same_dimension (unit s1) u_km_s" and "same_dimension (unit s2) u_km_s"
    and "0 < scale (unit s1)" and "0 < scale (unit s2)"
    and "0 < val s1" and "si s1 < si s2"
  shows "\<exists>m1 m2. bh_mass s1 = Returns m1 \<and> bh_mass s2 = Returns m2
      \<and> si m1 < si m2
      \<and> (unit s1 = u_km_s \<and> unit s2 = u_km_s \<longrightarrow>
           unit m1 = u_M_sun \<and> unit m2 = u_M_sun \<and> val m1 < val m2)"
proof -
  let ?m = "\<lambda>s. \<lparr>val = 134900000 * (val s / 200) powr 4.02,
      unit = unit_mul u_M_sun (unit_pow (unit_div (unit s) u_km_s) 4.02)\<rparr>"
  have pos1: "0 < si s1"
    using assms(3,5) by (simp add: si_def)
  then have "0 < val s2 * scale (unit s2)"
    using assms(6) by (simp add: si_def)
  then have v2: "0 < val s2"
    using assms(4) by (simp add: zero_less_mult_iff)
  have r1: "bh_mass s1 = Returns (?m s1)"
    using assms(5) by (simp add: bh_mass_nonneg)
  have r2: "bh_mass s2 = Returns (?m s2)"
    using v2 by (simp add: bh_mass_nonneg)
  have "(si s1 / 200000) powr 4.02 < (si s2 / 200000) powr 4.02"
    using pos1 assms(6) by (intro powr_less_mono2) (simp_all add: divide_strict_right_mono)
  moreover have "si (?m s1) = 134900000 * scale u_M_sun * (si s1 / 200000) powr 4.02"
    using assms(5,3) by (rule bh_mass_si_value)
  moreover have "si (?m s2) = 134900000 * scale u_M_sun * (si s2 / 200000) powr 4.02"
    using v2 assms(4) by (rule bh_mass_si_value)
  moreover have "0 < scale u_M_sun"
    by (simp add: u_M_sun_def)
  ultimately have lt: "si (?m s1) < si (?m s2)"
    by simp
  have km: "unit s1 = u_km_s \<and> unit s2 = u_km_s \<longrightarrow>
      unit (?m s1) = u_M_sun \<and> unit (?m s2) = u_M_sun \<and> val (?m s1) < val (?m s2)"
  proof
    assume u: "unit s1 = u_km_s \<and> unit s2 = u_km_s"
    then have "val s1 < val s2"
      using assms(6) by (simp add: si_def u_km_s_simps)
    then have "(val s1 / 200) powr 4.02 < (val s2 / 200) powr 4.02"
      using assms(5) by (intro powr_less_mono2) (simp_all add: divide_strict_right_mono)
    then show "unit (?m s1) = u_M_sun \<and> unit (?m s2) = u_M_sun \<and> val (?m s1) < val (?m s2)"
      using u by (simp add: bh_mass_unit_km_s)
  qed
  show ?thesis
    using r1 r2 lt km by (intro exI [of _ "?m s1"] exI [of _ "?m s2"]) simp
qed

text \<open>
  Claim C7, as amended. For a velocity dispersion of 130 km/s the black hole mass is
  \<open>1.349e8 * 0.65 ** 4.02\<close> solar masses, which lies between 2.387e7 and 2.388e7:
  approximately 2.39e7 solar masses.
\<close>

theorem bh_mass_130_km_s:
  "bh_mass \<lparr>val = 130, unit = u_km_s\<rparr>
     = Returns \<lparr>val = 134900000 * (130 / 200) powr 4.02, unit = u_M_sun\<rparr>
   \<and> 23870000 < 134900000 * (130 / 200) powr (4.02::real)
   \<and> 134900000 * (130 / 200) powr (4.02::real) < 23880000"
  using bh_mass_130 bh_mass_130_bounds by blast

text \<open>
  Claim C7, as stated, fails: the mass for 130 km/s is not approximately 1.69e7
  solar masses, it is more than a quarter of that figure away from it.
\<close>

theorem bh_mass_130_km_s_counterexample:
  "bh_mass \<lparr>val = 130, unit = u_km_s\<rparr>
     = Returns \<lparr>val = 134900000 * (130 / 200) powr 4.02, unit = u_M_sun\<rparr>
   \<and> \<not> \<bar>134900000 * (130 / 200) powr (4.02::real) - 16900000\<bar> \<le> 16900000 / 4"
  using bh_mass_130 bh_mass_130_bounds(1) by (simp add: abs_le_iff)

section \<open>Properties of the Doppler conversion\<close>

lemma wavelength_kind:
  assumes "has_exps a 1 0 0 0"
  shows "spectral_kind_of a = Some Wavelength" and "\<not> same_dimension a u_km_s"
  using assms by (simp_all add: spectral_kind_of_def has_exps_def same_dimension_def u_km_s_simps)

lemma to_doppler_velocity_wavelengths:
  assumes "has_exps (unit x) 1 0 0 0" and "has_exps (unit rest) 1 0 0 0"
  shows "to_doppler_velocity x rest
       = doppler_ratio (si x / scale u_AA) (si rest / scale u_AA)"
  using assms
  by (simp add: to_doppler_velocity_def doppler_relativistic_def to_km_s_def wavelength_kind)

lemma doppler_ratio_same:
  assumes "a \<noteq> 0"
  shows "doppler_ratio a a = Returns \<lparr>val = 0, unit = u_km_s\<rparr>"
  using assms by (simp add: doppler_ratio_def float_div_def)

lemma doppler_same_wavelength:
  assumes "has_exps (unit w) 1 0 0 0" and "0 < val w" and "0 < scale (unit w)"
  shows "to_doppler_velocity w w = Returns \<lparr>val = 0, unit = u_km_s\<rparr>"
proof -
  have "si w / scale u_AA \<noteq> 0"
    using assms(2,3) by (simp add: si_def u_AA_def)
  then show ?thesis
    using assms(1) by (simp add: to_doppler_velocity_wavelengths doppler_ratio_same)
qed

lemma rotation_velocity_pair:
  "rotation_velocity \<lparr>vals = [a, b], array_unit = u\<rparr>
     = to_doppler_velocity \<lparr>val = b, unit = u\<rparr> \<lparr>val = (a + b) / 2, unit = u\<rparr>"
  by (simp add: rotation_velocity_def py_index_def array_mean_def float_div_def)

text \<open>
  In exact arithmetic a zero wavelength shift converts to 0 km/s, for the rotation
  velocity of two equal centroids and for the velocity dispersion of a line of width
  0. The double arithmetic of the unit library does not keep this, see
  \<open>to_doppler_velocity_double\<close> below.
\<close>

lemma doppler_exact_zero_shift:
  assumes "has_exps (unit w) 1 0 0 0" and "0 < val w" and "0 < scale (unit w)"
  shows "to_doppler_velocity w w = Returns \<lparr>val = 0, unit = u_km_s\<rparr>
     \<and> rotation_velocity \<lparr>vals = [val w, val w], array_unit = unit w\<rparr>
         = Returns \<lparr>val = 0, unit = u_km_s\<rparr>
     \<and> (length choices \<noteq> 1 \<and> 3 \<le> length results
          \<and> entry_quantity (last results) = w
          \<and> entry_result (results ! 2) = 0
          \<and> same_dimension (entry_unit (results ! 2)) (unit w)
        \<longrightarrow> velocity_dispersion choices results = Returns \<lparr>val = 0, unit = u_km_s\<rparr>)"
proof (intro conjI impI)
  show z: "to_doppler_velocity w w = Returns \<lparr>val = 0, unit = u_km_s\<rparr>"
    using assms by (rule doppler_same_wavelength)
  have "rotation_velocity \<lparr>vals = [val w, val w], array_unit = unit w\<rparr>
      = to_doppler_velocity \<lparr>val = val w, unit = unit w\<rparr> \<lparr>val = val w, unit = unit w\<rparr>"
    by (simp add: rotation_velocity_pair)
  also have "\<lparr>val = val w, unit = unit w\<rparr> = w"
    by simp
  finally show "rotation_velocity \<lparr>vals = [val w, val w], array_unit = unit w\<rparr>
      = Returns \<lparr>val = 0, unit = u_km_s\<rparr>"
    using z by simp
next
  assume h: "length choices \<noteq> 1 \<and> 3 \<le> length results
          \<and> entry_quantity (last results) = w
          \<and> entry_result (results ! 2) = 0
          \<and> same_dimension (entry_unit (results ! 2)) (unit w)"
  then have ne: "results \<noteq> []" by auto
  have i2: "py_index results 2 = Returns (results ! 2)"
    using h by (simp add: py_index_def)
  have "nat (int (length results) - 1) = length results - 1"
    by simp
  then have il: "py_index results (- 1) = Returns (last results)"
    using h ne by (simp add: py_index_def last_conv_nth)
  have add: "q_add w (entry_quantity (results ! 2)) = Returns w"
    using h by (simp add: q_add_def q_to_value_def q_to_def entry_quantity_def)
  show "velocity_dispersion choices results = Returns \<lparr>val = 0, unit = u_km_s\<rparr>"
    using h i2 il add doppler_same_wavelength [OF assms]
    by (simp add: velocity_dispersion_def)
qed

section \<open>Properties of the relative error\<close>

lemma same_dimension_sym: "same_dimension a b \<longleftrightarrow> same_dimension b a"
  by (auto simp add: same_dimension_def)

lemma fractional_error_of_returns:
  assumes "same_dimension (unit measured) (unit reference)" and "val measured \<noteq> 0"
  shows "fractional_error_of measured reference = Returns
     \<lparr>val = (val measured - val reference * (scale (unit reference) / scale (unit measured)))
              / val measured,
      unit = unit_div (unit measured) (unit measured)\<rparr>"
  using assms same_dimension_sym [of "unit measured" "unit reference"]
  by (simp add: fractional_error_of_def q_sub_def q_to_value_def q_to_def q_truediv_def
      float_div_def)

lemma fractional_error_of_zero_measured:
  assumes "same_dimension (unit measured) (unit reference)" and "val measured = 0"
  shows "fractional_error_of measured reference = NonFinite"
  using assms same_dimension_sym [of "unit measured" "unit reference"]
  by (simp add: fractional_error_of_def q_sub_def q_to_value_def q_to_def q_truediv_def
      float_div_def)

lemma fractional_error_of_incompatible:
  assumes "\<not> same_dimension (unit measured) (unit reference)"
  shows "fractional_error_of measured reference = Raises UnitConversionError"
  using assms same_dimension_sym [of "unit measured" "unit reference"]
  by (simp add: fractional_error_of_def q_sub_def q_to_value_def q_to_def)

lemma unit_div_self:
  assumes "scale a \<noteq> 0"
  shows "unit_div a a = dimensionless_unscaled"
  using assms by (simp add: unit_div_def dimensionless_unscaled_def)

lemma relative_si:
  assumes "k \<noteq> 0" and "x \<noteq> (0::real)"
  shows "(x - y * (j / k)) / x = (x * k - y * j) / (x * k)"
  using assms by (simp add: field_simps)
text \<open>
  Claim C9. The relative error is \<open>(measured - reference) / measured\<close>, the measured
  value being the denominator, and it is exactly 0 when the reference equals a
  non-zero measured value. In the notebook the measured value is the black hole mass
  and the reference is \<open>10 ** log10_bh_mass_lit\<close> solar masses.
\<close>

theorem fractional_error_measured_denominator:
  assumes "val m \<noteq> 0" and "0 < scale (unit m)"
  shows "fractional_error_of m m = Returns \<lparr>val = 0, unit = dimensionless_unscaled\<rparr>
     \<and> (same_dimension (unit m) (unit reference) \<longrightarrow>
          fractional_error_of m reference = Returns
            \<lparr>val = (si m - si reference) / si m, unit = dimensionless_unscaled\<rparr>)
     \<and> (unit m = u_M_sun \<longrightarrow>
          fractional_error m log10_lit = Returns
            \<lparr>val = (val m - 10 powr log10_lit) / val m, unit = dimensionless_unscaled\<rparr>)
     \<and> (unit m = u_M_sun \<and> 0 < val m \<longrightarrow>
          fractional_error m (log 10 (val m))
            = Returns \<lparr>val = 0, unit = dimensionless_unscaled\<rparr>)"
proof (intro conjI impI)
  have k: "scale (unit m) \<noteq> 0"
    using assms(2) by simp
  have same: "same_dimension (unit m) (unit m)"
    by (simp add: same_dimension_def)
  show "fractional_error_of m m = Returns \<lparr>val = 0, unit = dimensionless_unscaled\<rparr>"
    using fractional_error_of_returns [OF same assms(1)] k by (simp add: unit_div_self)
  show "fractional_error_of m reference = Returns
      \<lparr>val = (si m - si reference) / si m, unit = dimensionless_unscaled\<rparr>"
    if d: "same_dimension (unit m) (unit reference)"
    using fractional_error_of_returns [OF d assms(1)] k relative_si [OF k assms(1)]
    by (simp add: unit_div_self si_def)
  have lit: "fractional_error m l = Returns
      \<lparr>val = (val m - 10 powr l) / val m, unit = dimensionless_unscaled\<rparr>"
    if u: "unit m = u_M_sun" for l
  proof -
    have d: "same_dimension (unit m) (unit \<lparr>val = 10 powr l, unit = u_M_sun\<rparr>)"
      using u by (simp add: same_dimension_def)
    show ?thesis
      using fractional_error_of_returns [OF d assms(1)] k u
      by (simp add: fractional_error_def unit_div_self)
  qed
  show "fractional_error m log10_lit = Returns
      \<lparr>val = (val m - 10 powr log10_lit) / val m, unit = dimensionless_unscaled\<rparr>"
    if "unit m = u_M_sun"
    using that by (rule lit)
  show "fractional_error m (log 10 (val m))
      = Returns \<lparr>val = 0, unit = dimensionless_unscaled\<rparr>"
    if "unit m = u_M_sun \<and> 0 < val m"
    using that lit [of "log 10 (val m)"] by simp
qed

theorem fractional_error_measured_denominator_witness:
  "val \<lparr>val = 100, unit = u_M_sun\<rparr> \<noteq> 0
   \<and> fractional_error_of \<lparr>val = 100, unit = u_M_sun\<rparr> \<lparr>val = 100, unit = u_M_sun\<rparr>
       = Returns \<lparr>val = 0, unit = dimensionless_unscaled\<rparr>
   \<and> fractional_error_of \<lparr>val = 100, unit = u_M_sun\<rparr> \<lparr>val = 50, unit = u_M_sun\<rparr>
       = Returns \<lparr>val = 1 / 2, unit = dimensionless_unscaled\<rparr>
   \<and> fractional_error \<lparr>val = 100, unit = u_M_sun\<rparr> 1
       = Returns \<lparr>val = 9 / 10, unit = dimensionless_unscaled\<rparr>
   \<and> fractional_error \<lparr>val = 100, unit = u_M_sun\<rparr> (log 10 100)
       = Returns \<lparr>val = 0, unit = dimensionless_unscaled\<rparr>"
proof -
  let ?m = "\<lparr>val = 100, unit = u_M_sun\<rparr>"
  have h: "val ?m \<noteq> 0" "0 < scale (unit ?m)"
    by (simp_all add: u_M_sun_def)
  have d: "same_dimension (unit ?m) (unit \<lparr>val = 50, unit = u_M_sun\<rparr>)"
    by (simp add: same_dimension_def)
  show ?thesis
    using fractional_error_measured_denominator [OF h, of "\<lparr>val = 50, unit = u_M_sun\<rparr>" 1] d
    by (simp add: si_def u_M_sun_def)
qed

section \<open>Properties of the projected distance, the enclosed mass and the density\<close>

lemma G_simps:
  "val G = 6.6743 / 10 ^ 11" "scale (unit G) = 1" "length_exp (unit G) = 3"
  "mass_exp (unit G) = - 1" "time_exp (unit G) = - 2" "angle_exp (unit G) = 0"
  by (simp_all add: G_def)

lemma u_M_sun_simps:
  "scale u_M_sun = 1988409870698051 * 10 ^ 15" "length_exp u_M_sun = 0"
  "mass_exp u_M_sun = 1" "time_exp u_M_sun = 0" "angle_exp u_M_sun = 0"
  by (simp_all add: u_M_sun_def)

lemma u_pc_simps:
  "scale u_pc = 30856775814913674" "length_exp u_pc = 1" "mass_exp u_pc = 0"
  "time_exp u_pc = 0" "angle_exp u_pc = 0"
  by (simp_all add: u_pc_def)

lemma u_rad_simps:
  "scale u_rad = 1" "length_exp u_rad = 0" "mass_exp u_rad = 0"
  "time_exp u_rad = 0" "angle_exp u_rad = 1"
  by (simp_all add: u_rad_def)

lemma min_enclosed_mass_returns:
  assumes "has_exps (unit radius) 1 0 0 0" and "same_dimension (unit velocity) u_km_s"
  shows "min_enclosed_mass radius velocity = Returns
     \<lparr>val = val radius * (val velocity)\<^sup>2 / val G
              * (scale (unit radius) * (scale (unit velocity))\<^sup>2 / scale u_M_sun),
      unit = u_M_sun\<rparr>"
  using assms
  by (simp add: min_enclosed_mass_def q_truediv_def float_div_def q_mul_def q_pow_int_def
      q_to_def unit_mul_def unit_div_def unit_pow_int_def same_dimension_def has_exps_def
      G_simps u_M_sun_simps u_km_s_simps)

lemma enclosed_mass_si:
  "si \<lparr>val = r * v\<^sup>2 / val G * (k * j\<^sup>2 / scale u_M_sun), unit = u_M_sun\<rparr>
     = (r * k) * (v * j)\<^sup>2 / si G"
  by (simp add: si_def G_simps u_M_sun_simps power_mult_distrib)

lemma projected_distance_returns:
  assumes "same_dimension (unit distance) u_pc" and "same_dimension (unit angle) u_rad"
  shows "projected_distance_from_center distance angle = Returns
     \<lparr>val = val angle * scale (unit angle) * val distance
              * (scale (unit distance) / scale u_pc) / 2,
      unit = u_pc\<rparr>"
  using assms
  by (simp add: projected_distance_from_center_def q_to_value_def q_to_def scalar_mul_def
      scalar_div_def float_div_def u_rad_simps)

lemma projected_distance_not_angle:
  assumes "\<not> same_dimension (unit angle) u_rad"
  shows "projected_distance_from_center distance angle = Raises UnitConversionError"
  using assms
  by (simp add: projected_distance_from_center_def q_to_value_def q_to_def)

lemma projected_distance_not_length:
  assumes "same_dimension (unit angle) u_rad" and "\<not> same_dimension (unit distance) u_pc"
  shows "projected_distance_from_center distance angle = Raises UnitConversionError"
  using assms
  by (simp add: projected_distance_from_center_def q_to_value_def q_to_def scalar_mul_def)

lemma projected_distance_si:
  "si \<lparr>val = t * d * (k / scale u_pc) / 2, unit = u_pc\<rparr> = (d * k) * t / 2"
  by (simp add: si_def u_pc_simps)

lemma density_returns:
  assumes "val radius \<noteq> 0"
  shows "density mass radius = Returns
     \<lparr>val = val mass / (4 / 3 * pi * (val radius) ^ 3),
      unit = unit_div (unit mass) (unit_pow_int (unit radius) 3)\<rparr>"
  using assms
  by (simp add: density_def scalar_mul_def q_pow_int_def q_truediv_def float_div_def)

lemma density_zero_radius:
  assumes "val radius = 0"
  shows "density mass radius = NonFinite"
  using assms
  by (simp add: density_def scalar_mul_def q_pow_int_def q_truediv_def float_div_def)
text \<open>
  Claim C8. The enclosed mass is \<open>radius * velocity ** 2 / G\<close>, returned in solar
  masses: for a radius of 0 the mass is 0 whatever the velocity, and since the
  velocity enters squared the mass of a non-negative radius is non-negative whatever
  the sign of the velocity.
\<close>

theorem min_enclosed_mass_formula:
  assumes "has_exps (unit radius) 1 0 0 0" and "same_dimension (unit velocity) u_km_s"
    and "0 < scale (unit radius)" and "0 \<le> val radius"
  shows "\<exists>mass. min_enclosed_mass radius velocity = Returns mass
      \<and> unit mass = u_M_sun
      \<and> si mass = si radius * (si velocity)\<^sup>2 / si G
      \<and> 0 \<le> val mass
      \<and> (val radius = 0 \<longrightarrow> val mass = 0)"
proof -
  let ?m = "\<lparr>val = val radius * (val velocity)\<^sup>2 / val G
              * (scale (unit radius) * (scale (unit velocity))\<^sup>2 / scale u_M_sun),
      unit = u_M_sun\<rparr>"
  have r: "min_enclosed_mass radius velocity = Returns ?m"
    using assms(1,2) by (rule min_enclosed_mass_returns)
  have s: "si ?m = si radius * (si velocity)\<^sup>2 / si G"
    unfolding enclosed_mass_si by (simp add: si_def)
  have "0 \<le> val radius * (val velocity)\<^sup>2 / val G"
    using assms(4) by (simp add: G_simps)
  moreover have "0 \<le> scale (unit radius) * (scale (unit velocity))\<^sup>2 / scale u_M_sun"
    using assms(3) by (simp add: u_M_sun_simps)
  ultimately have "0 \<le> val radius * (val velocity)\<^sup>2 / val G
      * (scale (unit radius) * (scale (unit velocity))\<^sup>2 / scale u_M_sun)"
    by (rule mult_nonneg_nonneg)
  then have n: "0 \<le> val ?m"
    by (simp del: times_divide_eq_left times_divide_eq_right times_divide_times_eq)
  show ?thesis
    using r s n by (intro exI [of _ ?m]) simp
qed

theorem min_enclosed_mass_formula_witness:
  "has_exps (unit \<lparr>val = 0, unit = u_pc\<rparr>) 1 0 0 0
   \<and> same_dimension (unit \<lparr>val = - 300, unit = u_km_s\<rparr>) u_km_s
   \<and> min_enclosed_mass \<lparr>val = 0, unit = u_pc\<rparr> \<lparr>val = - 300, unit = u_km_s\<rparr>
       = Returns \<lparr>val = 0, unit = u_M_sun\<rparr>
   \<and> (\<exists>mass. min_enclosed_mass \<lparr>val = 240, unit = u_pc\<rparr> \<lparr>val = - 300, unit = u_km_s\<rparr>
         = Returns mass \<and> unit mass = u_M_sun \<and> 0 \<le> val mass
         \<and> si mass = si \<lparr>val = 240, unit = u_pc\<rparr>
                      * (si \<lparr>val = - 300, unit = u_km_s\<rparr>)\<^sup>2 / si G)"
proof -
  let ?r = "\<lparr>val = 0, unit = u_pc\<rparr>" and ?v = "\<lparr>val = - 300, unit = u_km_s\<rparr>"
  have h: "has_exps (unit ?r) 1 0 0 0" "same_dimension (unit ?v) u_km_s"
    "0 < scale (unit ?r)" "0 \<le> val ?r"
    by (simp_all add: has_exps_def same_dimension_def u_pc_simps)
  obtain mass where m: "min_enclosed_mass ?r ?v = Returns mass" "unit mass = u_M_sun"
    "val ?r = 0 \<longrightarrow> val mass = 0"
    using min_enclosed_mass_formula [OF h] by blast
  have z: "mass = \<lparr>val = 0, unit = u_M_sun\<rparr>"
    using m(2,3) by (cases mass) simp
  let ?q = "\<lparr>val = 240, unit = u_pc\<rparr>"
  have g: "has_exps (unit ?q) 1 0 0 0" "0 < scale (unit ?q)" "0 \<le> val ?q"
    by (simp_all add: has_exps_def u_pc_simps)
  have "\<exists>mass. min_enclosed_mass ?q ?v = Returns mass \<and> unit mass = u_M_sun
      \<and> 0 \<le> val mass \<and> si mass = si ?q * (si ?v)\<^sup>2 / si G"
    using min_enclosed_mass_formula [OF g(1) h(2) g(2,3)] by blast
  then show ?thesis
    using h(1,2) m(1) z by blast
qed

lemma u_arcsec_simps:
  "scale u_arcsec = pi / 648000" "length_exp u_arcsec = 0" "mass_exp u_arcsec = 0"
  "time_exp u_arcsec = 0" "angle_exp u_arcsec = 1"
  by (simp_all add: u_arcsec_def)

lemma u_Mpc_simps:
  "scale u_Mpc = 1000000 * 30856775814913674" "length_exp u_Mpc = 1" "mass_exp u_Mpc = 0"
  "time_exp u_Mpc = 0" "angle_exp u_Mpc = 0"
  by (simp_all add: u_Mpc_def)

lemma projected_distance_2_arcsec:
  "projected_distance_from_center ngc7319_distance \<lparr>val = 2, unit = u_arcsec\<rparr>
     = Returns \<lparr>val = 98100000 * pi / 648000, unit = u_pc\<rparr>"
proof -
  have "projected_distance_from_center ngc7319_distance \<lparr>val = 2, unit = u_arcsec\<rparr>
     = Returns \<lparr>val = 2 * (pi / 648000) * 98.1 * (1000000 * 30856775814913674 / 30856775814913674) / 2,
                unit = u_pc\<rparr>"
    using projected_distance_returns [of ngc7319_distance "\<lparr>val = 2, unit = u_arcsec\<rparr>"]
    by (simp add: ngc7319_distance_def same_dimension_def u_arcsec_simps u_Mpc_simps
        u_pc_simps u_rad_simps)
  then show ?thesis by simp
qed

text \<open>
  Claim C3, as amended. The projected distance is half of the small-angle product:
  the angular separation is converted to radians, multiplied by the distance to the
  target, converted to parsecs and divided by 2, for every distance (no positivity
  is required) and every angle.
\<close>

theorem projected_distance_is_half_product:
  assumes "same_dimension (unit distance_to_target) u_pc"
    and "same_dimension (unit angular_separation) u_rad"
  shows "\<exists>angle_in_radians d.
        q_to_value angular_separation u_rad = Returns angle_in_radians
      \<and> projected_distance_from_center distance_to_target angular_separation = Returns d
      \<and> unit d = u_pc
      \<and> si d = si distance_to_target * angle_in_radians / 2"
proof -
  let ?t = "val angular_separation * scale (unit angular_separation)"
  let ?d = "\<lparr>val = ?t * val distance_to_target
              * (scale (unit distance_to_target) / scale u_pc) / 2,
      unit = u_pc\<rparr>"
  have a: "q_to_value angular_separation u_rad = Returns ?t"
    using assms(2) by (simp add: q_to_value_def q_to_def u_rad_simps)
  have r: "projected_distance_from_center distance_to_target angular_separation = Returns ?d"
    using assms by (rule projected_distance_returns)
  have s: "si ?d = si distance_to_target * ?t / 2"
    unfolding projected_distance_si by (simp add: si_def)
  show ?thesis
    using a r s by (intro exI [of _ ?t] exI [of _ ?d]) simp
qed

theorem projected_distance_is_half_product_witness:
  "same_dimension (unit ngc7319_distance) u_pc
   \<and> same_dimension (unit \<lparr>val = 2, unit = u_arcsec\<rparr>) u_rad
   \<and> (\<exists>angle_in_radians d.
        q_to_value \<lparr>val = 2, unit = u_arcsec\<rparr> u_rad = Returns angle_in_radians
      \<and> projected_distance_from_center ngc7319_distance \<lparr>val = 2, unit = u_arcsec\<rparr> = Returns d
      \<and> unit d = u_pc
      \<and> si d = si ngc7319_distance * angle_in_radians / 2)"
proof -
  have h: "same_dimension (unit ngc7319_distance) u_pc"
    "same_dimension (unit \<lparr>val = 2, unit = u_arcsec\<rparr>) u_rad"
    by (simp_all add: same_dimension_def ngc7319_distance_def u_Mpc_simps u_pc_simps
        u_arcsec_simps u_rad_simps)
  show ?thesis
    using projected_distance_is_half_product [OF h] h by blast
qed

text \<open>
  Claim C3, as stated, fails: for the distance of NGC 7319 (98.1 Mpc) and a
  separation of 2 arcsec the cell returns \<open>98.1e6 * pi / 648000\<close> pc, which is not the
  distance times the angle in radians (\<open>2 * pi / 648000\<close>) but half of it.
\<close>

theorem projected_distance_counterexample:
  "projected_distance_from_center ngc7319_distance \<lparr>val = 2, unit = u_arcsec\<rparr>
     = Returns \<lparr>val = 98100000 * pi / 648000, unit = u_pc\<rparr>
   \<and> q_to_value \<lparr>val = 2, unit = u_arcsec\<rparr> u_rad = Returns (2 * pi / 648000)
   \<and> si \<lparr>val = 98100000 * pi / 648000, unit = u_pc\<rparr>
       \<noteq> si ngc7319_distance * (2 * pi / 648000)"
proof -
  have "q_to_value \<lparr>val = 2, unit = u_arcsec\<rparr> u_rad = Returns (2 * pi / 648000)"
    by (simp add: q_to_value_def q_to_def same_dimension_def u_arcsec_simps u_rad_simps)
  moreover have "si \<lparr>val = 98100000 * pi / 648000, unit = u_pc\<rparr>
       \<noteq> si ngc7319_distance * (2 * pi / 648000)"
    by (simp add: si_def ngc7319_distance_def u_pc_simps u_Mpc_simps)
  ultimately show ?thesis
    using projected_distance_2_arcsec by simp
qed
lemma density_si:
  assumes "r \<noteq> 0"
  shows "m / (4 / 3 * pi * r ^ 3) * (scale u_M_sun / (scale u_pc) ^ 3)
       = (m * scale u_M_sun) / (4 / 3 * pi * (r * scale u_pc) ^ 3)"
  using assms by (simp add: power_mult_distrib u_pc_simps)

text \<open>
  Claim C10. The radius that enters the enclosed mass and the density is half of the
  distance to the target times the angular separation in radians: run in order, the
  cells give the enclosed mass \<open>(D * theta / 2) * v ** 2 / G\<close> and the density of that
  mass in the sphere of the same halved radius.
\<close>

theorem notebook_uses_halved_radius:
  assumes "same_dimension (unit distance) u_pc"
    and "same_dimension (unit angular_separation) u_rad"
    and "same_dimension (unit velocity) u_km_s"
  shows "\<exists>theta radius mass.
        q_to_value angular_separation u_rad = Returns theta
      \<and> projected_distance_from_center distance angular_separation = Returns radius
      \<and> si radius = si distance * theta / 2
      \<and> min_enclosed_mass radius velocity = Returns mass
      \<and> notebook_enclosed_mass distance angular_separation velocity = Returns mass
      \<and> si mass = (si distance * theta / 2) * (si velocity)\<^sup>2 / si G
      \<and> notebook_density distance angular_separation velocity = density mass radius
      \<and> (val radius \<noteq> 0 \<longrightarrow>
           (\<exists>rho. notebook_density distance angular_separation velocity = Returns rho
              \<and> si rho = si mass / (4 / 3 * pi * (si distance * theta / 2) ^ 3)))"
proof -
  define theta where "theta = val angular_separation * scale (unit angular_separation)"
  define radius where "radius =
    \<lparr>val = theta * val distance * (scale (unit distance) / scale u_pc) / 2, unit = u_pc\<rparr>"
  define mass where "mass =
    \<lparr>val = val radius * (val velocity)\<^sup>2 / val G
              * (scale (unit radius) * (scale (unit velocity))\<^sup>2 / scale u_M_sun),
     unit = u_M_sun\<rparr>"
  define rho where "rho =
    \<lparr>val = val mass / (4 / 3 * pi * (val radius) ^ 3),
     unit = unit_div (unit mass) (unit_pow_int (unit radius) 3)\<rparr>"
  have a: "q_to_value angular_separation u_rad = Returns theta"
    using assms(2) by (simp add: theta_def q_to_value_def q_to_def u_rad_simps)
  have r: "projected_distance_from_center distance angular_separation = Returns radius"
    unfolding radius_def theta_def using assms(1,2) by (rule projected_distance_returns)
  have rs: "si radius = si distance * theta / 2"
    unfolding radius_def projected_distance_si by (simp add: si_def)
  have e: "has_exps (unit radius) 1 0 0 0"
    by (simp add: radius_def has_exps_def u_pc_simps)
  have m: "min_enclosed_mass radius velocity = Returns mass"
    unfolding mass_def using e assms(3) by (rule min_enclosed_mass_returns)
  have "si mass = si radius * (si velocity)\<^sup>2 / si G"
    unfolding mass_def enclosed_mass_si by (simp add: si_def)
  then have ms: "si mass = (si distance * theta / 2) * (si velocity)\<^sup>2 / si G"
    unfolding rs .
  have nm: "notebook_enclosed_mass distance angular_separation velocity = Returns mass"
    unfolding notebook_enclosed_mass_def r using m by simp
  have nd: "notebook_density distance angular_separation velocity = density mass radius"
    unfolding notebook_density_def r using m by simp
  have d: "\<exists>x. notebook_density distance angular_separation velocity = Returns x
         \<and> si x = si mass / (4 / 3 * pi * (si distance * theta / 2) ^ 3)"
    if nz: "val radius \<noteq> 0"
  proof -
    have dr: "density mass radius = Returns rho"
      unfolding rho_def using nz by (rule density_returns)
    have "si rho = val mass / (4 / 3 * pi * (val radius) ^ 3)
        * (scale u_M_sun / (scale u_pc) ^ 3)"
      by (simp add: rho_def mass_def radius_def si_def unit_div_def unit_pow_int_def)
    also have "\<dots> = (val mass * scale u_M_sun) / (4 / 3 * pi * (val radius * scale u_pc) ^ 3)"
      using nz by (rule density_si)
    also have "val mass * scale u_M_sun = si mass"
      by (simp add: si_def mass_def)
    also have "val radius * scale u_pc = si radius"
      by (simp add: si_def radius_def)
    finally have "si rho = si mass / (4 / 3 * pi * (si distance * theta / 2) ^ 3)"
      unfolding rs .
    then show ?thesis
      using nd dr by (intro exI [of _ rho]) simp
  qed
  show ?thesis
    using a r rs m nm ms nd d by blast
qed

theorem notebook_uses_halved_radius_witness:
  "same_dimension (unit ngc7319_distance) u_pc
   \<and> same_dimension (unit \<lparr>val = 2, unit = u_arcsec\<rparr>) u_rad
   \<and> same_dimension (unit \<lparr>val = 100, unit = u_km_s\<rparr>) u_km_s
   \<and> val \<lparr>val = 98100000 * pi / 648000, unit = u_pc\<rparr> \<noteq> 0
   \<and> (\<exists>mass rho.
        notebook_enclosed_mass ngc7319_distance \<lparr>val = 2, unit = u_arcsec\<rparr>
          \<lparr>val = 100, unit = u_km_s\<rparr> = Returns mass
      \<and> si mass = (si ngc7319_distance * (2 * pi / 648000) / 2)
                    * (si \<lparr>val = 100, unit = u_km_s\<rparr>)\<^sup>2 / si G
      \<and> notebook_density ngc7319_distance \<lparr>val = 2, unit = u_arcsec\<rparr>
          \<lparr>val = 100, unit = u_km_s\<rparr> = Returns rho
      \<and> si rho = si mass / (4 / 3 * pi * (si ngc7319_distance * (2 * pi / 648000) / 2) ^ 3))"
proof -
  let ?a = "\<lparr>val = 2, unit = u_arcsec\<rparr>" and ?v = "\<lparr>val = 100, unit = u_km_s\<rparr>"
  have h: "same_dimension (unit ngc7319_distance) u_pc" "same_dimension (unit ?a) u_rad"
    "same_dimension (unit ?v) u_km_s"
    by (simp_all add: same_dimension_def ngc7319_distance_def u_Mpc_simps u_pc_simps
        u_arcsec_simps u_rad_simps)
  have t: "q_to_value ?a u_rad = Returns (2 * pi / 648000)"
    by (simp add: q_to_value_def q_to_def same_dimension_def u_arcsec_simps u_rad_simps)
  have nz: "val \<lparr>val = 98100000 * pi / 648000, unit = u_pc\<rparr> \<noteq> 0"
    by simp
  obtain theta radius mass where w:
    "q_to_value ?a u_rad = Returns theta"
    "projected_distance_from_center ngc7319_distance ?a = Returns radius"
    "notebook_enclosed_mass ngc7319_distance ?a ?v = Returns mass"
    "si mass = (si ngc7319_distance * theta / 2) * (si ?v)\<^sup>2 / si G"
    "val radius \<noteq> 0 \<longrightarrow>
           (\<exists>rho. notebook_density ngc7319_distance ?a ?v = Returns rho
              \<and> si rho = si mass / (4 / 3 * pi * (si ngc7319_distance * theta / 2) ^ 3))"
    using notebook_uses_halved_radius [OF h] by blast
  have th: "theta = 2 * pi / 648000"
    using t w(1) by simp
  have "radius = \<lparr>val = 98100000 * pi / 648000, unit = u_pc\<rparr>"
    using w(2) projected_distance_2_arcsec by simp
  then have "val radius \<noteq> 0"
    by simp
  then show ?thesis
    using h nz w(3,4,5) unfolding th by blast
qed

section \<open>Errors of the notebook\<close>

lemma guard_raises:
  assumes "length choices = 1"
  shows "velocity_dispersion choices line_analysis_results = Raises (Exception select_message)"
    and "wavelength_centroids choices region_keys get_results
           = Raises (Exception select_message)"
  using assms by (simp_all add: velocity_dispersion_def wavelength_centroids_def)

text \<open>
  Claim C4, as amended. When the Line Analysis plugin offers no spectral subset
  besides its default entry (its list of choices has exactly one element), both
  measuring cells raise a plain \<^verbatim>\<open>Exception\<close> carrying the "Please select a spectral
  region" message, whatever the plugin would have measured: nothing is derived, no
  default region is substituted and nothing is retried.
\<close>

theorem no_spectral_subset_raises_exception:
  assumes "length choices = 1"
  shows "velocity_dispersion choices line_analysis_results = Raises (Exception select_message)
     \<and> wavelength_centroids choices region_keys get_results
         = Raises (Exception select_message)
     \<and> error_class (Exception select_message) = ''Exception''"
  using guard_raises [OF assms] by simp

theorem no_spectral_subset_raises_exception_witness:
  "length [''Entire Spectrum''] = 1
   \<and> velocity_dispersion [''Entire Spectrum'']
        [\<lparr>entry_result = 1, entry_unit = u_um\<rparr>, \<lparr>entry_result = 1, entry_unit = u_um\<rparr>,
         \<lparr>entry_result = 0.002, entry_unit = u_um\<rparr>, \<lparr>entry_result = 4.861, entry_unit = u_um\<rparr>]
       = Raises (Exception select_message)
   \<and> wavelength_centroids [''Entire Spectrum''] [''Subset 1'', ''Subset 3'', ''Subset 4'']
        (\<lambda>name. [\<lparr>entry_result = 4.861, entry_unit = u_um\<rparr>])
       = Raises (Exception select_message)"
proof -
  have h: "length [''Entire Spectrum''] = 1"
    by simp
  show ?thesis
    using no_spectral_subset_raises_exception [OF h] by simp
qed

text \<open>
  Claim C4, as stated, fails: with only the default entry among the choices the cell
  raises an exception of class \<^verbatim>\<open>Exception\<close>, not of a class
  \<^verbatim>\<open>InsufficientInputError\<close>.
\<close>

theorem no_spectral_subset_counterexample:
  "velocity_dispersion [''Entire Spectrum''] [] = Raises (Exception select_message)
   \<and> raised (velocity_dispersion [''Entire Spectrum''] []) = Some (Exception select_message)
   \<and> error_class (Exception select_message) \<noteq> ''InsufficientInputError''"
  by (simp add: velocity_dispersion_def)
lemma float_div_raised: "raised (float_div x y) = None"
  by (simp add: float_div_def)

lemma doppler_ratio_raised: "raised (doppler_ratio a b) = None"
  by (simp add: doppler_ratio_def float_div_def)

lemma rest_wavelength_raised: "raised (obind (rest_wavelength k x) (\<lambda>r. doppler_ratio (f r) (g r))) = None"
  by (cases k) (simp_all add: float_div_def doppler_ratio_raised)

lemma rest_frequency_raised: "raised (obind (rest_frequency k x) (\<lambda>r. doppler_ratio (f r) (g r))) = None"
  by (cases k) (simp_all add: float_div_def doppler_ratio_raised)

lemma rest_energy_raised: "raised (obind (rest_energy k x) (\<lambda>r. doppler_ratio (f r) (g r))) = None"
  by (cases k) (simp_all add: float_div_def doppler_ratio_raised)

lemma to_km_s_raised:
  "raised (to_km_s x rest) \<in> {None, Some UnitConversionError}"
  by (simp add: to_km_s_def q_to_def rest_wavelength_raised rest_frequency_raised
      rest_energy_raised split: option.split spectral_kind.split)

lemma to_doppler_velocity_raised:
  "raised (to_doppler_velocity x rest) \<in> {None, Some UnitsError, Some UnitConversionError}"
  using to_km_s_raised [of x rest]
  by (auto simp add: to_doppler_velocity_def doppler_relativistic_def split: option.split)

lemma doppler_zero_wavelengths:
  "to_doppler_velocity \<lparr>val = 0, unit = u_um\<rparr> \<lparr>val = 0, unit = u_um\<rparr> = NonFinite"
proof -
  have "has_exps (unit \<lparr>val = 0, unit = u_um\<rparr>) 1 0 0 0"
    by (simp add: has_exps_def u_um_def)
  then show ?thesis
    by (simp add: to_doppler_velocity_wavelengths doppler_ratio_def float_div_def si_def)
qed

lemma bh_mass_total:
  "bh_mass sigma =
     (if val sigma < 0 then NonFinite
      else Returns
        \<lparr>val = 134900000 * (val sigma / 200) powr 4.02,
         unit = unit_mul u_M_sun (unit_pow (unit_div (unit sigma) u_km_s) 4.02)\<rparr>)"
  using bh_mass_nonneg [of sigma] bh_mass_negative [of sigma] by (cases "val sigma < 0") simp_all

lemma density_total:
  "density mass radius =
     (if val radius = 0 then NonFinite
      else Returns
        \<lparr>val = val mass / (4 / 3 * pi * (val radius) ^ 3),
         unit = unit_div (unit mass) (unit_pow_int (unit radius) 3)\<rparr>)"
  using density_returns [of radius mass] density_zero_radius [of radius mass]
  by (cases "val radius = 0") simp_all

lemma fractional_error_of_total:
  "fractional_error_of measured reference =
     (if \<not> same_dimension (unit measured) (unit reference) then Raises UnitConversionError
      else if val measured = 0 then NonFinite
      else Returns
        \<lparr>val = (val measured
                 - val reference * (scale (unit reference) / scale (unit measured)))
                / val measured,
         unit = unit_div (unit measured) (unit measured)\<rparr>)"
  using fractional_error_of_returns [of measured reference]
    fractional_error_of_zero_measured [of measured reference]
    fractional_error_of_incompatible [of measured reference]
  by (cases "same_dimension (unit measured) (unit reference)"; cases "val measured = 0") simp_all

lemma projected_distance_total:
  "projected_distance_from_center distance angle =
     (if same_dimension (unit angle) u_rad \<and> same_dimension (unit distance) u_pc
      then Returns
        \<lparr>val = val angle * scale (unit angle) * val distance
                 * (scale (unit distance) / scale u_pc) / 2,
         unit = u_pc\<rparr>
      else Raises UnitConversionError)"
  using projected_distance_returns [of distance angle]
    projected_distance_not_angle [of angle distance]
    projected_distance_not_length [of angle distance]
  by (cases "same_dimension (unit angle) u_rad"; cases "same_dimension (unit distance) u_pc")
    simp_all

lemma min_enclosed_mass_total:
  "min_enclosed_mass radius velocity =
     (if same_dimension
           (unit_div (unit_mul (unit radius) (unit_pow_int (unit velocity) 2)) (unit G)) u_M_sun
      then Returns
        \<lparr>val = val radius * (val velocity)\<^sup>2 / val G
                 * (scale (unit radius) * (scale (unit velocity))\<^sup>2 / scale u_M_sun),
         unit = u_M_sun\<rparr>
      else Raises UnitConversionError)"
  by (simp add: min_enclosed_mass_def q_truediv_def float_div_def q_mul_def q_pow_int_def
      q_to_def unit_mul_def unit_div_def unit_pow_int_def G_simps)

text \<open>
  Claim C2, as amended. The six derivations check no mathematical precondition and
  raise no error of their own. The black hole mass and the density never raise: a
  negative velocity dispersion gives a non-finite float (a NaN) and a dispersion of 0
  the mass 0; a radius of 0 gives a non-finite density. The other derivations raise
  only the errors of the unit library, where an operand has to be converted: the
  relative error raises \<^verbatim>\<open>UnitConversionError\<close> when the reference has not the
  dimension of the measured value, and gives a non-finite float when the measured
  value is 0; the projected distance raises it when the separation is not an angle or
  the distance not a length; the enclosed mass when radius times squared velocity
  over G is not a mass; the Doppler conversion raises nothing but \<^verbatim>\<open>UnitsError\<close> or
  \<^verbatim>\<open>UnitConversionError\<close>, and a reference wavelength of 0 with a shifted wavelength
  of 0 gives a non-finite float.
\<close>

theorem derivations_validate_units_only:
  "bh_mass sigma =
     (if val sigma < 0 then NonFinite
      else Returns
        \<lparr>val = 134900000 * (val sigma / 200) powr 4.02,
         unit = unit_mul u_M_sun (unit_pow (unit_div (unit sigma) u_km_s) 4.02)\<rparr>)
   \<and> density mass radius =
     (if val radius = 0 then NonFinite
      else Returns
        \<lparr>val = val mass / (4 / 3 * pi * (val radius) ^ 3),
         unit = unit_div (unit mass) (unit_pow_int (unit radius) 3)\<rparr>)
   \<and> fractional_error_of measured reference =
     (if \<not> same_dimension (unit measured) (unit reference) then Raises UnitConversionError
      else if val measured = 0 then NonFinite
      else Returns
        \<lparr>val = (val measured
                 - val reference * (scale (unit reference) / scale (unit measured)))
                / val measured,
         unit = unit_div (unit measured) (unit measured)\<rparr>)
   \<and> projected_distance_from_center distance angle =
     (if same_dimension (unit angle) u_rad \<and> same_dimension (unit distance) u_pc
      then Returns
        \<lparr>val = val angle * scale (unit angle) * val distance
                 * (scale (unit distance) / scale u_pc) / 2,
         unit = u_pc\<rparr>
      else Raises UnitConversionError)
   \<and> min_enclosed_mass r velocity =
     (if same_dimension
           (unit_div (unit_mul (unit r) (unit_pow_int (unit velocity) 2)) (unit G)) u_M_sun
      then Returns
        \<lparr>val = val r * (val velocity)\<^sup>2 / val G
                 * (scale (unit r) * (scale (unit velocity))\<^sup>2 / scale u_M_sun),
         unit = u_M_sun\<rparr>
      else Raises UnitConversionError)
   \<and> raised (to_doppler_velocity x rest) \<in> {None, Some UnitsError, Some UnitConversionError}
   \<and> to_doppler_velocity \<lparr>val = 0, unit = u_um\<rparr> \<lparr>val = 0, unit = u_um\<rparr> = NonFinite"
  using bh_mass_total [of sigma] density_total [of mass radius]
    fractional_error_of_total [of measured reference]
    projected_distance_total [of distance angle]
    min_enclosed_mass_total [of r velocity]
    to_doppler_velocity_raised [of x rest] doppler_zero_wavelengths
  by blast

text \<open>
  Claim C2, as stated, fails: a velocity dispersion of 0 km/s is accepted and gives
  a black hole mass of 0 solar masses, and one of -130 km/s gives a non-finite float;
  neither raises an error.
\<close>

theorem non_positive_dispersion_counterexample:
  "bh_mass \<lparr>val = 0, unit = u_km_s\<rparr> = Returns \<lparr>val = 0, unit = u_M_sun\<rparr>
   \<and> raised (bh_mass \<lparr>val = 0, unit = u_km_s\<rparr>) = None
   \<and> bh_mass \<lparr>val = - 130, unit = u_km_s\<rparr> = NonFinite
   \<and> raised (bh_mass \<lparr>val = - 130, unit = u_km_s\<rparr>) = None"
  by (simp add: bh_mass_nonneg bh_mass_negative bh_mass_unit_km_s)

section \<open>Properties of rounding to double precision\<close>

lemma round_half_even_cases:
  "round_half_even z = \<lfloor>z\<rfloor> \<or> round_half_even z = \<lfloor>z\<rfloor> + 1"
  by (simp add: round_half_even_def Let_def)

lemma round_half_even_error: "\<bar>of_int (round_half_even z) - z\<bar> \<le> 1 / 2"
proof -
  have "of_int \<lfloor>z\<rfloor> \<le> z" "z < of_int \<lfloor>z\<rfloor> + 1"
    by linarith+
  then show ?thesis
    by (auto simp add: round_half_even_def Let_def)
qed

lemma round_half_even_of_int [simp]: "round_half_even (of_int n) = n"
  by (simp add: round_half_even_def)

lemma round_half_even_mono:
  assumes "x \<le> y"
  shows "round_half_even x \<le> round_half_even y"
proof (cases "\<lfloor>x\<rfloor> = \<lfloor>y\<rfloor>")
  case True
  then show ?thesis
    using assms by (auto simp add: round_half_even_def Let_def)
next
  case False
  then have "\<lfloor>x\<rfloor> < \<lfloor>y\<rfloor>"
    using assms floor_mono [of x y] by linarith
  moreover have "round_half_even x \<le> \<lfloor>x\<rfloor> + 1"
    using round_half_even_cases [of x] by linarith
  moreover have "\<lfloor>y\<rfloor> \<le> round_half_even y"
    using round_half_even_cases [of y] by linarith
  ultimately show ?thesis by linarith
qed

lemma round_half_even_ge:
  assumes "of_int n \<le> z"
  shows "n \<le> round_half_even z"
  using round_half_even_mono [OF assms] by simp

lemma round_half_even_le:
  assumes "z \<le> of_int n"
  shows "round_half_even z \<le> n"
  using round_half_even_mono [OF assms] by simp


lemma two_powr_powi: "(2::real) powr real_of_int k = 2 powi k"
  by (simp add: powr_real_of_int')

lemma two_powi_less_iff: "(2::real) powi a < 2 powi b \<longleftrightarrow> a < b"
  unfolding two_powr_powi [symmetric] by simp

lemma two_powi_le_iff: "(2::real) powi a \<le> 2 powi b \<longleftrightarrow> a \<le> b"
  unfolding two_powr_powi [symmetric] by simp

lemma binade_eqI:
  assumes "2 powi e \<le> \<bar>x\<bar>" and "\<bar>x\<bar> < 2 powi (e + 1)" and "min_exponent \<le> e"
  shows "binade x = e"
proof -
  have "2 powi min_exponent \<le> (2::real) powi e"
    using assms(3) by (simp only: two_powi_le_iff)
  then have n: "\<not> \<bar>x\<bar> < 2 powi min_exponent"
    using assms(1) by linarith
  have "0 < (2::real) powi e"
    by simp
  then have p: "0 < \<bar>x\<bar>"
    using assms(1) by linarith
  have "2 powr real_of_int e \<le> \<bar>x\<bar> \<and> \<bar>x\<bar> < 2 powr real_of_int (e + 1)"
    using assms(1,2) by (simp only: two_powr_powi)
  then have "\<lfloor>log 2 \<bar>x\<bar>\<rfloor> = e"
    using floor_log_eq_powr_iff [of "\<bar>x\<bar>" 2 e] p by simp
  then show ?thesis
    using n by (simp add: binade_def)
qed

lemma binade_subnormal:
  assumes "\<bar>x\<bar> < 2 powi min_exponent"
  shows "binade x = min_exponent"
  using assms by (simp add: binade_def)

lemma binade_normal:
  assumes "2 powi min_exponent \<le> \<bar>x\<bar>"
  shows "2 powi (binade x) \<le> \<bar>x\<bar>" and "\<bar>x\<bar> < 2 powi (binade x + 1)"
    and "min_exponent \<le> binade x"
proof -
  have "0 < (2::real) powi min_exponent"
    by simp
  then have p: "0 < \<bar>x\<bar>"
    using assms by linarith
  have b: "binade x = \<lfloor>log 2 \<bar>x\<bar>\<rfloor>"
    using assms by (simp add: binade_def)
  have "2 powr real_of_int (binade x) \<le> \<bar>x\<bar> \<and> \<bar>x\<bar> < 2 powr real_of_int (binade x + 1)"
    using floor_log_eq_powr_iff [of "\<bar>x\<bar>" 2 "binade x"] p b by simp
  then show l: "2 powi (binade x) \<le> \<bar>x\<bar>" and u: "\<bar>x\<bar> < 2 powi (binade x + 1)"
    by (simp_all only: two_powr_powi)
  have "(2::real) powi min_exponent < 2 powi (binade x + 1)"
    using assms u by linarith
  then show "min_exponent \<le> binade x"
    by (simp only: two_powi_less_iff)
qed

lemma binade_lower: "min_exponent \<le> binade x"
  by (cases "\<bar>x\<bar> < 2 powi min_exponent") (simp_all add: binade_subnormal binade_normal(3))

lemma binade_upper: "\<bar>x\<bar> < 2 powi (binade x + 1)"
proof (cases "\<bar>x\<bar> < 2 powi min_exponent")
  case True
  moreover have "(2::real) powi min_exponent \<le> 2 powi (min_exponent + 1)"
    by (simp only: two_powi_le_iff)
  ultimately show ?thesis
    by (simp add: binade_subnormal)
next
  case False
  then show ?thesis
    by (simp add: binade_normal(2))
qed

lemma binade_mono:
  assumes "\<bar>x\<bar> \<le> \<bar>y\<bar>"
  shows "binade x \<le> binade y"
proof (cases "\<bar>x\<bar> < 2 powi min_exponent")
  case True
  then show ?thesis
    using binade_lower [of y] by (simp add: binade_subnormal)
next
  case False
  then have nx: "2 powi min_exponent \<le> \<bar>x\<bar>" by simp
  then have "2 powi (binade x) \<le> \<bar>x\<bar>"
    by (rule binade_normal(1))
  also have "\<bar>x\<bar> \<le> \<bar>y\<bar>" by (rule assms)
  also have "\<bar>y\<bar> < 2 powi (binade y + 1)" by (rule binade_upper)
  finally show ?thesis
    by (simp only: two_powi_less_iff)
qed


lemma two_powi_split: "(2::real) powi b = 2 ^ 52 * 2 powi (b - 52)"
proof -
  have "(2::real) powi b = 2 powi (52 + (b - 52))"
    by (rule arg_cong [of _ _ "\<lambda>k. 2 powi k"]) simp
  also have "\<dots> = 2 powi 52 * 2 powi (b - 52)"
    by (rule power_int_add) simp
  finally show ?thesis by simp
qed

lemma two_powi_succ: "(2::real) powi (b + 1) = 2 ^ 53 * 2 powi (b - 52)"
proof -
  have "(2::real) powi (b + 1) = 2 powi (53 + (b - 52))"
    by (rule arg_cong [of _ _ "\<lambda>k. 2 powi k"]) simp
  also have "\<dots> = 2 powi 53 * 2 powi (b - 52)"
    by (rule power_int_add) simp
  finally show ?thesis by simp
qed

lemma two_powi_half: "(2::real) powi (b - 52) / 2 = 2 powi b / 2 ^ 53"
  by (simp add: two_powi_split [of b])

lemma round_double_eval:
  assumes "binade x = e"
  shows "round_double x = of_int (round_half_even (x / 2 powi (e - 52))) * 2 powi (e - 52)"
  using assms by (simp add: round_double_def)

lemma round_double_zero [simp]: "round_double 0 = 0"
  by (simp add: round_double_def round_half_even_def)

lemma round_double_nonneg:
  assumes "0 \<le> x"
  shows "0 \<le> round_double x"
proof -
  have "of_int 0 \<le> x / 2 powi (binade x - 52)"
    using assms by simp
  then have "0 \<le> round_half_even (x / 2 powi (binade x - 52))"
    by (rule round_half_even_ge)
  then show ?thesis
    by (simp add: round_double_def)
qed

lemma round_double_abs_error: "\<bar>round_double x - x\<bar> \<le> 2 powi (binade x - 52) / 2"
proof -
  define u :: real where "u = 2 powi (binade x - 52)"
  define r :: real where "r = of_int (round_half_even (x / u))"
  have u: "0 < u" by (simp add: u_def)
  have e: "\<bar>r - x / u\<bar> \<le> 1 / 2"
    unfolding r_def by (rule round_half_even_error)
  have "\<bar>r * u - x\<bar> = \<bar>(r - x / u) * u\<bar>"
    using u by (simp add: left_diff_distrib)
  also have "\<dots> = \<bar>r - x / u\<bar> * u"
    using u by (simp add: abs_mult)
  also have "\<dots> \<le> 1 / 2 * u"
    using e u by (intro mult_right_mono) simp_all
  finally have "\<bar>r * u - x\<bar> \<le> u / 2"
    by simp
  then show ?thesis
    by (simp add: round_double_def u_def r_def)
qed

lemma round_double_rel_error:
  assumes "2 powi min_exponent \<le> \<bar>x\<bar>"
  shows "\<bar>round_double x - x\<bar> \<le> \<bar>x\<bar> / 2 ^ 53"
proof -
  have "\<bar>round_double x - x\<bar> \<le> 2 powi (binade x) / 2 ^ 53"
    using round_double_abs_error [of x] by (simp only: two_powi_half)
  also have "\<dots> \<le> \<bar>x\<bar> / 2 ^ 53"
    using binade_normal(1) [OF assms] by (simp add: divide_right_mono)
  finally show ?thesis .
qed

lemma round_double_mono:
  assumes "0 \<le> x" and "x \<le> y"
  shows "round_double x \<le> round_double y"
proof (cases "binade x = binade y")
  case True
  define u :: real where "u = 2 powi (binade y - 52)"
  have u: "0 < u" by (simp add: u_def)
  have "x / u \<le> y / u"
    using assms(2) u by (simp add: divide_right_mono)
  then have "round_half_even (x / u) \<le> round_half_even (y / u)"
    by (rule round_half_even_mono)
  then have "of_int (round_half_even (x / u)) * u \<le> of_int (round_half_even (y / u)) * u"
    using u by simp
  then show ?thesis
    using True by (simp add: round_double_def u_def)
next
  case False
  have "\<bar>x\<bar> \<le> \<bar>y\<bar>"
    using assms by simp
  then have "binade x \<le> binade y"
    by (rule binade_mono)
  then have lt: "binade x + 1 \<le> binade y"
    using False by simp
  define ux :: real where "ux = 2 powi (binade x - 52)"
  define uy :: real where "uy = 2 powi (binade y - 52)"
  have ux: "0 < ux" and uy: "0 < uy" by (simp_all add: ux_def uy_def)
  have "\<not> \<bar>y\<bar> < 2 powi min_exponent"
    using lt binade_lower [of x] binade_subnormal [of y] by auto
  then have "2 powi (binade y) \<le> \<bar>y\<bar>"
    by (simp add: binade_normal(1))
  then have "2 ^ 52 * uy \<le> y"
    using assms by (simp add: uy_def two_powi_split [of "binade y"])
  then have "of_int (2 ^ 52) \<le> y / uy"
    using uy by (simp add: pos_le_divide_eq)
  then have "2 ^ 52 \<le> round_half_even (y / uy)"
    by (rule round_half_even_ge)
  then have "(2::real) ^ 52 \<le> of_int (round_half_even (y / uy))"
    by (metis of_int_le_iff of_int_numeral of_int_power)
  then have "2 ^ 52 * uy \<le> of_int (round_half_even (y / uy)) * uy"
    using uy by simp
  then have hi: "2 powi (binade y) \<le> round_double y"
    by (simp add: round_double_def uy_def two_powi_split [of "binade y"])
  have "\<bar>x\<bar> < 2 powi (binade x + 1)"
    by (rule binade_upper)
  then have "x \<le> 2 ^ 53 * ux"
    using assms by (simp add: ux_def two_powi_succ [of "binade x"])
  then have "x / ux \<le> of_int (2 ^ 53)"
    using ux by (simp add: pos_divide_le_eq)
  then have "round_half_even (x / ux) \<le> 2 ^ 53"
    by (rule round_half_even_le)
  then have "of_int (round_half_even (x / ux)) \<le> (2::real) ^ 53"
    by (metis of_int_le_iff of_int_numeral of_int_power)
  then have "of_int (round_half_even (x / ux)) * ux \<le> 2 ^ 53 * ux"
    using ux by simp
  then have "round_double x \<le> 2 powi (binade x + 1)"
    by (simp add: round_double_def ux_def two_powi_succ [of "binade x"])
  also have "\<dots> \<le> 2 powi (binade y)"
    using lt by (simp only: two_powi_le_iff)
  finally show ?thesis
    using hi by linarith
qed

lemma round_double_evalI:
  assumes "2 powi e \<le> \<bar>x\<bar>" and "\<bar>x\<bar> < 2 powi (e + 1)" and "min_exponent \<le> e"
    and "round_half_even (x / 2 powi (e - 52)) = n"
  shows "round_double x = of_int n * 2 powi (e - 52)"
  using round_double_eval [OF binade_eqI [OF assms(1,2,3)]] assms(4) by simp

section \<open>Properties of the black hole mass in double precision\<close>

lemma rd_quotient_a: "round_double ((7036874417766401 / 2 ^ 45) / (200)) = 4503599627370497 / 2 ^ 52"
proof -
  have "round_double ((7036874417766401 / 2 ^ 45) / (200)) = of_int 4503599627370497 * 2 powi (0 - 52)"
    by (rule round_double_evalI) (simp_all add: min_exponent_def round_half_even_def)
  then show ?thesis
    by simp
qed

lemma quotient_a: "double_div (7036874417766401 / 2 ^ 45) (200) = Returns (4503599627370497 / 2 ^ 52)"
  unfolding double_div_def double_of_def Let_def rd_quotient_a by simp

lemma rd_quotient_b: "round_double ((3518437208883201 / 2 ^ 44) / (200)) = 4503599627370497 / 2 ^ 52"
proof -
  have "round_double ((3518437208883201 / 2 ^ 44) / (200)) = of_int 4503599627370497 * 2 powi (0 - 52)"
    by (rule round_double_evalI) (simp_all add: min_exponent_def round_half_even_def)
  then show ?thesis
    by simp
qed

lemma quotient_b: "double_div (3518437208883201 / 2 ^ 44) (200) = Returns (4503599627370497 / 2 ^ 52)"
  unfolding double_div_def double_of_def Let_def rd_quotient_b by simp

lemma rd_quotient_200: "round_double ((200) / (200)) = 1"
proof -
  have "round_double ((200) / (200)) = of_int 4503599627370496 * 2 powi (0 - 52)"
    by (rule round_double_evalI) (simp_all add: min_exponent_def round_half_even_def)
  then show ?thesis
    by simp
qed

lemma quotient_200: "double_div (200) (200) = Returns (1)"
  unfolding double_div_def double_of_def Let_def rd_quotient_200 by simp

lemma rd_402: "round_double (4.02) = 1131529406376837 / 2 ^ 48"
proof -
  have "round_double (4.02) = of_int 4526117625507348 * 2 powi (2 - 52)"
    by (rule round_double_evalI) (simp_all add: min_exponent_def round_half_even_def)
  then show ?thesis
    by simp
qed

lemma rd_product_a: "round_double ((134900000) * (1125899906842625 / 2 ^ 50)) = 1131623219200001 / 2 ^ 23"
proof -
  have "round_double ((134900000) * (1125899906842625 / 2 ^ 50)) = of_int 4526492876800004 * 2 powi (27 - 52)"
    by (rule round_double_evalI) (simp_all add: min_exponent_def round_half_even_def)
  then show ?thesis
    by simp
qed

lemma product_a: "double_mul (134900000) (1125899906842625 / 2 ^ 50) = Returns (1131623219200001 / 2 ^ 23)"
  unfolding double_mul_def double_of_def Let_def rd_product_a by simp

lemma rd_product_200: "round_double ((134900000) * (1)) = 134900000"
proof -
  have "round_double ((134900000) * (1)) = of_int 4526492876800000 * 2 powi (27 - 52)"
    by (rule round_double_evalI) (simp_all add: min_exponent_def round_half_even_def)
  then show ?thesis
    by simp
qed

lemma product_200: "double_mul (134900000) (1) = Returns (134900000)"
  unfolding double_mul_def double_of_def Let_def rd_product_200 by simp

lemma round_half_even_eqI:
  assumes "of_int n - 1 / 2 < z" and "z < of_int n + 1 / 2"
  shows "round_half_even z = n"
proof -
  have "\<bar>of_int (round_half_even z) - z\<bar> \<le> 1 / 2"
    by (rule round_half_even_error)
  then have "\<bar>real_of_int (round_half_even z) - of_int n\<bar> < 1"
    using assms by linarith
  then have "\<bar>round_half_even z - n\<bar> < 1"
    by (metis of_int_1 of_int_abs of_int_diff of_int_less_iff)
  then show ?thesis
    by simp
qed

lemma double_of_finite:
  assumes "double_of x = Returns a"
  shows "a = round_double x" and "\<bar>round_double x\<bar> < 2 ^ 1024"
  using assms by (simp_all add: double_of_def Let_def split: if_splits)

lemma double_of_cases: "double_of x = NonFinite \<or> double_of x = Returns (round_double x)"
  by (simp add: double_of_def Let_def)

lemma double_of_mono:
  assumes "0 \<le> x" and "x \<le> y" and "double_of y = Returns b"
  shows "\<exists>a. double_of x = Returns a \<and> 0 \<le> a \<and> a \<le> b"
proof -
  have b: "b = round_double y" and f: "\<bar>round_double y\<bar> < 2 ^ 1024"
    using double_of_finite [OF assms(3)] by simp_all
  have le: "round_double x \<le> round_double y"
    using assms(1,2) by (rule round_double_mono)
  have nn: "0 \<le> round_double x"
    using assms(1) by (rule round_double_nonneg)
  then have "\<bar>round_double x\<bar> < 2 ^ 1024"
    using le f by linarith
  then have "double_of x = Returns (round_double x)"
    by (simp add: double_of_def Let_def)
  then show ?thesis
    using le nn b by simp
qed

lemma double_power_mono:
  assumes "0 \<le> x" and "x \<le> y" and "0 < e" and "double_power y e = Returns q"
  shows "\<exists>p. double_power x e = Returns p \<and> 0 \<le> p \<and> p \<le> q"
proof (cases "x = 0")
  case True
  show ?thesis
  proof (cases "y = 0")
    case True
    then show ?thesis
      using \<open>x = 0\<close> assms(3,4) by (simp add: double_power_def)
  next
    case False
    then have y: "0 < y"
      using assms(1,2) by simp
    then have "double_of (y powr e) = Returns q"
      using assms(4) by (simp add: double_power_def)
    then have "q = round_double (y powr e)"
      by (rule double_of_finite(1))
    then have "0 \<le> q"
      by (simp add: round_double_nonneg)
    then show ?thesis
      using \<open>x = 0\<close> assms(3) by (simp add: double_power_def)
  qed
next
  case False
  then have x: "0 < x" and y: "0 < y"
    using assms(1,2) by simp_all
  have q: "double_of (y powr e) = Returns q"
    using assms(4) y by (simp add: double_power_def)
  have "x powr e \<le> y powr e"
    using assms(1,2,3) by (intro powr_mono2) simp_all
  then have "\<exists>p. double_of (x powr e) = Returns p \<and> 0 \<le> p \<and> p \<le> q"
    using q by (intro double_of_mono) simp_all
  then show ?thesis
    using x by (simp add: double_power_def)
qed

lemma root50_le:
  assumes "0 < b" and "0 \<le> x" and "(x::real) \<le> b ^ 50"
  shows "x powr (1 / 50) \<le> b"
proof -
  have "x powr (1 / 50) \<le> (b ^ 50) powr (1 / 50)"
    using assms by (intro powr_mono2) simp_all
  moreover have "(b ^ 50) powr (1 / 50) = b"
    using assms(1) powr_powr [of b 50 "1 / 50"] by (simp add: powr_numeral)
  ultimately show ?thesis by simp
qed

lemma power_402_bounds:
  fixes x :: real
  assumes "x = 1 + 1 / 2 ^ 52"
  shows "x ^ 4 \<le> x powr (1131529406376837 / 2 ^ 48)"
    and "x powr (1131529406376837 / 2 ^ 48) \<le> x ^ 4 * (1 + 1 / (50 * 2 ^ 52))"
proof -
  have x1: "1 \<le> x" using assms by simp
  have "x powr 4 \<le> x powr (1131529406376837 / 2 ^ 48)"
    using x1 by (intro powr_mono) simp_all
  then show "x ^ 4 \<le> x powr (1131529406376837 / 2 ^ 48)"
    using x1 by (simp add: powr_numeral)
  have "x powr (1131529406376837 / 2 ^ 48) \<le> x powr (4 + 1 / 50)"
    using x1 by (intro powr_mono) simp_all
  also have "\<dots> = x powr 4 * x powr (1 / 50)"
    by (rule powr_add)
  also have "x powr 4 = x ^ 4"
    using x1 by (simp add: powr_numeral)
  finally have u: "x powr (1131529406376837 / 2 ^ 48) \<le> x ^ 4 * x powr (1 / 50)" .
  have "1 + of_nat 50 * (1 / (50 * 2 ^ 52)) \<le> (1 + 1 / (50 * 2 ^ 52) :: real) ^ 50"
    by (rule Bernoulli_inequality) simp
  then have "x \<le> (1 + 1 / (50 * 2 ^ 52)) ^ 50"
    using assms by simp
  then have "x powr (1 / 50) \<le> 1 + 1 / (50 * 2 ^ 52)"
    using x1 by (intro root50_le) simp_all
  then have "x ^ 4 * x powr (1 / 50) \<le> x ^ 4 * (1 + 1 / (50 * 2 ^ 52))"
    using x1 by (intro mult_left_mono) simp_all
  then show "x powr (1131529406376837 / 2 ^ 48) \<le> x ^ 4 * (1 + 1 / (50 * 2 ^ 52))"
    using u by linarith
qed

lemma rd_power_402:
  "round_double ((4503599627370497 / 2 ^ 52) powr (1131529406376837 / 2 ^ 48))
     = 1125899906842625 / 2 ^ 50"
proof -
  define x :: real where "x = 1 + 1 / 2 ^ 52"
  define y :: real where "y = x powr (1131529406376837 / 2 ^ 48)"
  have x: "x = 4503599627370497 / 2 ^ 52"
    by (simp add: x_def)
  have lo: "x ^ 4 \<le> y" and hi: "y \<le> x ^ 4 * (1 + 1 / (50 * 2 ^ 52))"
    unfolding y_def using power_402_bounds [OF x_def] by simp_all
  have l4: "1 + 4 / 2 ^ 52 \<le> x ^ 4"
    unfolding x by (simp add: power_divide)
  have h4: "x ^ 4 * (1 + 1 / (50 * 2 ^ 52)) < 1 + 9 / 2 ^ 53"
    unfolding x by (simp add: power_divide)
  have y1: "1 + 4 / 2 ^ 52 \<le> y" and y2: "y < 1 + 9 / 2 ^ 53"
    using lo hi l4 h4 by linarith+
  have "round_double y = of_int 4503599627370500 * 2 powi (0 - 52)"
  proof (rule round_double_evalI)
    show "2 powi 0 \<le> \<bar>y\<bar>" using y1 by simp
    show "\<bar>y\<bar> < 2 powi (0 + 1)" using y1 y2 by simp
    show "min_exponent \<le> 0" by (simp add: min_exponent_def)
    show "round_half_even (y / 2 powi (0 - 52)) = 4503599627370500"
    proof (rule round_half_even_eqI)
      show "of_int 4503599627370500 - 1 / 2 < y / 2 powi (0 - 52)"
        using y1 by simp
      show "y / 2 powi (0 - 52) < of_int 4503599627370500 + 1 / 2"
        using y2 by simp
    qed
  qed
  then have "round_double y = 1125899906842625 / 2 ^ 50"
    by simp
  then show ?thesis
    unfolding y_def x .
qed

lemma power_402: "double_power (4503599627370497 / 2 ^ 52) (1131529406376837 / 2 ^ 48)
     = Returns (1125899906842625 / 2 ^ 50)"
  unfolding double_power_def double_of_def Let_def rd_power_402 by simp

lemma power_402_one: "double_power 1 (1131529406376837 / 2 ^ 48) = Returns 1"
proof -
  have "round_double 1 = of_int 4503599627370496 * 2 powi (0 - 52)"
    by (rule round_double_evalI) (simp_all add: min_exponent_def round_half_even_def)
  then have "round_double 1 = 1"
    by simp
  then show ?thesis
    by (simp add: double_power_def double_of_def)
qed

lemma units_of_bh_mass_double:
  "unit_mul u_M_sun (unit_pow (unit_div u_km_s u_km_s) p) = u_M_sun"
  by (rule bh_mass_unit_km_s)

lemma bh_mass_double_a:
  "bh_mass_double \<lparr>val = 7036874417766401 / 2 ^ 45, unit = u_km_s\<rparr>
     = Returns \<lparr>val = 1131623219200001 / 2 ^ 23, unit = u_M_sun\<rparr>"
  by (simp only: bh_mass_double_def q_truediv_double_def q_pow_double_def q_mul_double_def
      quantity.select_convs obind.simps quotient_a rd_402 power_402 product_a
      units_of_bh_mass_double)

lemma bh_mass_double_b:
  "bh_mass_double \<lparr>val = 3518437208883201 / 2 ^ 44, unit = u_km_s\<rparr>
     = Returns \<lparr>val = 1131623219200001 / 2 ^ 23, unit = u_M_sun\<rparr>"
  by (simp only: bh_mass_double_def q_truediv_double_def q_pow_double_def q_mul_double_def
      quantity.select_convs obind.simps quotient_b rd_402 power_402 product_a
      units_of_bh_mass_double)

lemma bh_mass_double_200:
  "bh_mass_double \<lparr>val = 200, unit = u_km_s\<rparr> = Returns \<lparr>val = 134900000, unit = u_M_sun\<rparr>"
  by (simp only: bh_mass_double_def q_truediv_double_def q_pow_double_def q_mul_double_def
      quantity.select_convs obind.simps quotient_200 rd_402 power_402_one product_200
      units_of_bh_mass_double)

lemma obind_assoc: "obind (obind m f) g = obind m (\<lambda>x. obind (f x) g)"
  by (cases m) simp_all

lemma bh_mass_double_stages:
  assumes "e = round_double 4.02" and "unit s = u_km_s"
  shows "bh_mass_double s =
     obind (double_div (val s) 200) (\<lambda>r.
     obind (double_power r e) (\<lambda>p.
     obind (double_mul 134900000 p) (\<lambda>m.
     Returns \<lparr>val = m, unit = u_M_sun\<rparr>)))"
  by (simp add: bh_mass_double_def q_truediv_double_def q_pow_double_def q_mul_double_def
      obind_assoc assms units_of_bh_mass_double)

text \<open>
  Claim C6, as amended. In the double arithmetic of the cell the black hole mass is
  non-decreasing in a positive velocity dispersion: of two dispersions in km/s with
  \<open>0 < s1 \<le> s2\<close> the first gives at most the mass of the second, both in solar
  masses, unless the mass of the second overflows to \<^verbatim>\<open>inf\<close>.
\<close>

theorem bh_mass_double_nondecreasing:
  assumes "0 < val s1" and "val s1 \<le> val s2"
    and "unit s1 = u_km_s" and "unit s2 = u_km_s"
  shows "bh_mass_double s2 = NonFinite
     \<or> (\<exists>m1 m2. bh_mass_double s1 = Returns m1 \<and> bh_mass_double s2 = Returns m2
          \<and> unit m1 = u_M_sun \<and> unit m2 = u_M_sun \<and> val m1 \<le> val m2)"
proof -
  define e where "e = round_double 4.02"
  have e: "0 < e"
    unfolding e_def rd_402 by simp
  note st1 = bh_mass_double_stages [OF e_def assms(3)]
  note st2 = bh_mass_double_stages [OF e_def assms(4)]
  have d: "double_div (val s2) 200 = NonFinite
      \<or> double_div (val s2) 200 = Returns (round_double (val s2 / 200))"
    using double_of_cases [of "val s2 / 200"] by (simp add: double_div_def)
  show ?thesis
  proof (cases "double_div (val s2) 200")
    case (Raises x)
    then show ?thesis using d by simp
  next
    case NonFinite
    then show ?thesis by (simp add: st2)
  next
    case r2: (Returns r2)
    have "\<exists>a. double_of (val s1 / 200) = Returns a \<and> 0 \<le> a \<and> a \<le> r2"
      using assms(1,2) r2 by (intro double_of_mono) (simp_all add: double_div_def)
    then obtain r1 where r1: "double_div (val s1) 200 = Returns r1" "0 \<le> r1" "r1 \<le> r2"
      by (auto simp add: double_div_def)
    show ?thesis
    proof (cases "double_power r2 e")
      case (Raises x)
      then show ?thesis
        using double_of_cases [of "r2 powr e"] double_of_cases [of "r2 powi \<lfloor>e\<rfloor>"] e
        by (auto simp add: double_power_def split: if_splits)
    next
      case NonFinite
      then show ?thesis by (simp add: st2 r2)
    next
      case p2: (Returns p2)
      obtain p1 where p1: "double_power r1 e = Returns p1" "0 \<le> p1" "p1 \<le> p2"
        using double_power_mono [OF r1(2,3) e p2] by blast
      show ?thesis
      proof (cases "double_mul 134900000 p2")
        case (Raises x)
        then show ?thesis
          using double_of_cases [of "134900000 * p2"] by (simp add: double_mul_def)
      next
        case NonFinite
        then show ?thesis by (simp add: st2 r2 p2)
      next
        case m2: (Returns m2)
        have "\<exists>a. double_of (134900000 * p1) = Returns a \<and> 0 \<le> a \<and> a \<le> m2"
          using p1(2,3) m2 by (intro double_of_mono) (simp_all add: double_mul_def)
        then obtain m1 where m1: "double_mul 134900000 p1 = Returns m1" "m1 \<le> m2"
          by (auto simp add: double_mul_def)
        have "bh_mass_double s1 = Returns \<lparr>val = m1, unit = u_M_sun\<rparr>"
          using r1(1) p1(1) m1(1) by (simp add: st1)
        moreover have "bh_mass_double s2 = Returns \<lparr>val = m2, unit = u_M_sun\<rparr>"
          using r2 p2 m2 by (simp add: st2)
        ultimately show ?thesis
          using m1(2) by simp
      qed
    qed
  qed
qed

theorem bh_mass_double_nondecreasing_witness:
  "0 < val \<lparr>val = 200, unit = u_km_s\<rparr>
   \<and> val \<lparr>val = 200, unit = u_km_s\<rparr> \<le> val \<lparr>val = 7036874417766401 / 2 ^ 45, unit = u_km_s\<rparr>
   \<and> bh_mass_double \<lparr>val = 200, unit = u_km_s\<rparr>
       = Returns \<lparr>val = 134900000, unit = u_M_sun\<rparr>
   \<and> bh_mass_double \<lparr>val = 7036874417766401 / 2 ^ 45, unit = u_km_s\<rparr>
       = Returns \<lparr>val = 1131623219200001 / 2 ^ 23, unit = u_M_sun\<rparr>
   \<and> (134900000 :: real) \<le> 1131623219200001 / 2 ^ 23"
proof -
  let ?a = "\<lparr>val = 200, unit = u_km_s\<rparr>"
  let ?b = "\<lparr>val = 7036874417766401 / 2 ^ 45, unit = u_km_s\<rparr>"
  have h: "0 < val ?a" "val ?a \<le> val ?b" "unit ?a = u_km_s" "unit ?b = u_km_s"
    by simp_all
  have "bh_mass_double ?b = NonFinite
     \<or> (\<exists>m1 m2. bh_mass_double ?a = Returns m1 \<and> bh_mass_double ?b = Returns m2
          \<and> unit m1 = u_M_sun \<and> unit m2 = u_M_sun \<and> val m1 \<le> val m2)"
    using h by (rule bh_mass_double_nondecreasing)
  then have "(134900000 :: real) \<le> 1131623219200001 / 2 ^ 23"
    by (simp add: bh_mass_double_200 bh_mass_double_a)
  then show ?thesis
    using h(1,2) bh_mass_double_200 bh_mass_double_a by blast
qed

text \<open>
  Claim C6, as stated, fails: the dispersions 200.00000000000003 and
  200.00000000000006 km/s (\<open>200 + 2 ^ -45\<close> and \<open>200 + 2 ^ -44\<close>) differ, yet both give
  the quotient \<open>1 + 2 ^ -52\<close> by the pivot and so the same mass,
  134900000.00000012 solar masses (\<open>134900000 + 2 ^ -23\<close>).
\<close>

theorem bh_mass_double_counterexample:
  "val \<lparr>val = 7036874417766401 / 2 ^ 45, unit = u_km_s\<rparr>
     < val \<lparr>val = 3518437208883201 / 2 ^ 44, unit = u_km_s\<rparr>
   \<and> bh_mass_double \<lparr>val = 7036874417766401 / 2 ^ 45, unit = u_km_s\<rparr>
       = Returns \<lparr>val = 1131623219200001 / 2 ^ 23, unit = u_M_sun\<rparr>
   \<and> bh_mass_double \<lparr>val = 3518437208883201 / 2 ^ 44, unit = u_km_s\<rparr>
       = Returns \<lparr>val = 1131623219200001 / 2 ^ 23, unit = u_M_sun\<rparr>"
  using bh_mass_double_a bh_mass_double_b by simp

section \<open>Properties of the Doppler conversion in double precision\<close>

lemma rd_tenth: "round_double (1 / 10) = 3602879701896397 / 2 ^ 55"
proof -
  have "round_double (1 / 10) = of_int 7205759403792794 * 2 powi (- 4 - 52)"
    by (rule round_double_evalI) (simp_all add: min_exponent_def round_half_even_def)
  then show ?thesis
    by simp
qed

lemma rd_nano: "round_double (1 / 10 ^ 9) = 4835703278458517 / 2 ^ 82"
proof -
  have "round_double (1 / 10 ^ 9) = of_int 4835703278458517 * 2 powi (- 30 - 52)"
    by (rule round_double_evalI) (simp_all add: min_exponent_def round_half_even_def)
  then show ?thesis
    by simp
qed

lemma rd_angstrom: "round_double ((3602879701896397 / 2 ^ 55) * (4835703278458517 / 2 ^ 82)) = 1934281311383407 / 2 ^ 84"
proof -
  have "round_double ((3602879701896397 / 2 ^ 55) * (4835703278458517 / 2 ^ 82)) = of_int 7737125245533628 * 2 powi (- 34 - 52)"
    by (rule round_double_evalI) (simp_all add: min_exponent_def round_half_even_def)
  then show ?thesis
    by simp
qed

lemma rd_micro: "round_double (1 / 10 ^ 6) = 4722366482869645 / 2 ^ 72"
proof -
  have "round_double (1 / 10 ^ 6) = of_int 4722366482869645 * 2 powi (- 20 - 52)"
    by (rule round_double_evalI) (simp_all add: min_exponent_def round_half_even_def)
  then show ?thesis
    by simp
qed

lemma rd_4752: "round_double (4.752) = 5350276357316149 / 2 ^ 50"
proof -
  have "round_double (4.752) = of_int 5350276357316149 * 2 powi (2 - 52)"
    by (rule round_double_evalI) (simp_all add: min_exponent_def round_half_even_def)
  then show ?thesis
    by simp
qed

lemma scale_u_AA_double: "scale u_AA_double = 1934281311383407 / 2 ^ 84"
  by (simp only: u_AA_double_def punit.select_convs rd_tenth rd_nano rd_angstrom)

lemma scale_u_um_double: "scale u_um_double = 4722366482869645 / 2 ^ 72"
  by (simp only: u_um_double_def punit.select_convs rd_micro)

lemma lengths_double:
  "has_exps u_um_double 1 0 0 0" "has_exps u_AA_double 1 0 0 0"
  "same_dimension u_AA_double u_um_double" "same_dimension u_um_double u_AA_double"
  by (simp_all add: has_exps_def same_dimension_def u_um_double_def u_AA_double_def)

lemma rd_factor_AA_um: "round_double ((1934281311383407 / 2 ^ 84) / (4722366482869645 / 2 ^ 72)) = 3689348814741911 / 2 ^ 65"
proof -
  have "round_double ((1934281311383407 / 2 ^ 84) / (4722366482869645 / 2 ^ 72)) = of_int 7378697629483822 * 2 powi (- 14 - 52)"
    by (rule round_double_evalI) (simp_all add: min_exponent_def round_half_even_def)
  then show ?thesis
    by simp
qed

lemma factor_AA_um: "double_div (1934281311383407 / 2 ^ 84) (4722366482869645 / 2 ^ 72) = Returns (3689348814741911 / 2 ^ 65)"
  unfolding double_div_def double_of_def Let_def rd_factor_AA_um by simp

lemma unit_to_double_AA_um: "unit_to_double u_AA_double u_um_double = Returns (3689348814741911 / 2 ^ 65)"
  by (simp only: unit_to_double_def lengths_double if_True scale_u_AA_double scale_u_um_double
      factor_AA_um)

lemma rd_factor_um_AA: "round_double ((4722366482869645 / 2 ^ 72) / (1934281311383407 / 2 ^ 84)) = 5497558138879999 / 2 ^ 39"
proof -
  have "round_double ((4722366482869645 / 2 ^ 72) / (1934281311383407 / 2 ^ 84)) = of_int 5497558138879999 * 2 powi (13 - 52)"
    by (rule round_double_evalI) (simp_all add: min_exponent_def round_half_even_def)
  then show ?thesis
    by simp
qed

lemma factor_um_AA: "double_div (4722366482869645 / 2 ^ 72) (1934281311383407 / 2 ^ 84) = Returns (5497558138879999 / 2 ^ 39)"
  unfolding double_div_def double_of_def Let_def rd_factor_um_AA by simp

lemma unit_to_double_um_AA: "unit_to_double u_um_double u_AA_double = Returns (5497558138879999 / 2 ^ 39)"
  by (simp only: unit_to_double_def lengths_double if_True scale_u_AA_double scale_u_um_double
      factor_um_AA)

lemma factor_um_AA_not_unity: "\<not> is_effectively_unity (5497558138879999 / 2 ^ 39)"
  by (simp add: is_effectively_unity_def)

lemma rd_x_angstrom_4752: "round_double ((5350276357316149 / 2 ^ 50) / (3689348814741911 / 2 ^ 65)) = 3265549534494719 / 2 ^ 36"
proof -
  have "round_double ((5350276357316149 / 2 ^ 50) / (3689348814741911 / 2 ^ 65)) = of_int 6531099068989438 * 2 powi (15 - 52)"
    by (rule round_double_evalI) (simp_all add: min_exponent_def round_half_even_def)
  then show ?thesis
    by simp
qed

lemma x_angstrom_4752: "double_div (5350276357316149 / 2 ^ 50) (3689348814741911 / 2 ^ 65) = Returns (3265549534494719 / 2 ^ 36)"
  unfolding double_div_def double_of_def Let_def rd_x_angstrom_4752 by simp

lemma rd_restwav_4752: "round_double ((5350276357316149 / 2 ^ 50) * (5497558138879999 / 2 ^ 39)) = 6531099068989439 / 2 ^ 37"
proof -
  have "round_double ((5350276357316149 / 2 ^ 50) * (5497558138879999 / 2 ^ 39)) = of_int 6531099068989439 * 2 powi (15 - 52)"
    by (rule round_double_evalI) (simp_all add: min_exponent_def round_half_even_def)
  then show ?thesis
    by simp
qed

lemma restwav_4752: "double_mul (5350276357316149 / 2 ^ 50) (5497558138879999 / 2 ^ 39) = Returns (6531099068989439 / 2 ^ 37)"
  unfolding double_mul_def double_of_def Let_def rd_restwav_4752 by simp

lemma to_value_double_4752:
  "to_value_double \<lparr>val = 5350276357316149 / 2 ^ 50, unit = u_um_double\<rparr> u_AA_double = Returns (6531099068989439 / 2 ^ 37)"
  by (simp only: to_value_double_def quantity.select_convs unit_to_double_um_AA obind.simps
      factor_um_AA_not_unity if_False restwav_4752)

lemma rd_xx_4752: "round_double ((3265549534494719 / 2 ^ 36) * (3265549534494719 / 2 ^ 36)) = 4735684627660797 / 2 ^ 21"
proof -
  have "round_double ((3265549534494719 / 2 ^ 36) * (3265549534494719 / 2 ^ 36)) = of_int 4735684627660797 * 2 powi (31 - 52)"
    by (rule round_double_evalI) (simp_all add: min_exponent_def round_half_even_def)
  then show ?thesis
    by simp
qed

lemma xx_4752: "double_mul (3265549534494719 / 2 ^ 36) (3265549534494719 / 2 ^ 36) = Returns (4735684627660797 / 2 ^ 21)"
  unfolding double_mul_def double_of_def Let_def rd_xx_4752 by simp

lemma rd_rr_4752: "round_double ((6531099068989439 / 2 ^ 37) * (6531099068989439 / 2 ^ 37)) = 4735684627660799 / 2 ^ 21"
proof -
  have "round_double ((6531099068989439 / 2 ^ 37) * (6531099068989439 / 2 ^ 37)) = of_int 4735684627660799 * 2 powi (31 - 52)"
    by (rule round_double_evalI) (simp_all add: min_exponent_def round_half_even_def)
  then show ?thesis
    by simp
qed

lemma rr_4752: "double_mul (6531099068989439 / 2 ^ 37) (6531099068989439 / 2 ^ 37) = Returns (4735684627660799 / 2 ^ 21)"
  unfolding double_mul_def double_of_def Let_def rd_rr_4752 by simp

lemma rd_numerator_4752: "round_double ((4735684627660797 / 2 ^ 21) - (4735684627660799 / 2 ^ 21)) = - (1 / 2 ^ 20)"
proof -
  have "round_double ((4735684627660797 / 2 ^ 21) - (4735684627660799 / 2 ^ 21)) = of_int (- 4503599627370496) * 2 powi (- 20 - 52)"
    by (rule round_double_evalI) (simp_all add: min_exponent_def round_half_even_def)
  then show ?thesis
    by simp
qed

lemma numerator_4752: "double_sub (4735684627660797 / 2 ^ 21) (4735684627660799 / 2 ^ 21) = Returns (- (1 / 2 ^ 20))"
  unfolding double_sub_def double_of_def Let_def rd_numerator_4752 by simp

lemma rd_denominator_4752: "round_double ((4735684627660799 / 2 ^ 21) + (4735684627660797 / 2 ^ 21)) = 2367842313830399 / 2 ^ 19"
proof -
  have "round_double ((4735684627660799 / 2 ^ 21) + (4735684627660797 / 2 ^ 21)) = of_int 4735684627660798 * 2 powi (32 - 52)"
    by (rule round_double_evalI) (simp_all add: min_exponent_def round_half_even_def)
  then show ?thesis
    by simp
qed

lemma denominator_4752: "double_add (4735684627660799 / 2 ^ 21) (4735684627660797 / 2 ^ 21) = Returns (2367842313830399 / 2 ^ 19)"
  unfolding double_add_def double_of_def Let_def rd_denominator_4752 by simp

lemma rd_ratio_4752: "round_double ((- (1 / 2 ^ 20)) / (2367842313830399 / 2 ^ 19)) = - (8565777157196471 / 2 ^ 105)"
proof -
  have "round_double ((- (1 / 2 ^ 20)) / (2367842313830399 / 2 ^ 19)) = of_int (- 8565777157196471) * 2 powi (- 53 - 52)"
    by (rule round_double_evalI) (simp_all add: min_exponent_def round_half_even_def)
  then show ?thesis
    by simp
qed

lemma ratio_4752: "double_div (- (1 / 2 ^ 20)) (2367842313830399 / 2 ^ 19) = Returns (- (8565777157196471 / 2 ^ 105))"
  unfolding double_div_def double_of_def Let_def rd_ratio_4752 by simp

lemma rd_milli: "round_double (1 / 1000) = 1152921504606847 / 2 ^ 60"
proof -
  have "round_double (1 / 1000) = of_int 4611686018427388 * 2 powi (- 10 - 52)"
    by (rule round_double_evalI) (simp_all add: min_exponent_def round_half_even_def)
  then show ?thesis
    by simp
qed

lemma rd_ckms: "round_double (299792458 * (1152921504606847 / 2 ^ 60)) = 2575197605394907 / 2 ^ 33"
proof -
  have "round_double (299792458 * (1152921504606847 / 2 ^ 60)) = of_int 5150395210789814 * 2 powi (18 - 52)"
    by (rule round_double_evalI) (simp_all add: min_exponent_def round_half_even_def)
  then show ?thesis
    by simp
qed

lemma ckms_double_value: "ckms_double = 2575197605394907 / 2 ^ 33"
  by (simp only: ckms_double_def rd_milli rd_ckms)

lemma rd_velocity_4752: "round_double ((- (8565777157196471 / 2 ^ 105)) * (2575197605394907 / 2 ^ 33)) = - (2448993099819357 / 2 ^ 85)"
proof -
  have "round_double ((- (8565777157196471 / 2 ^ 105)) * (2575197605394907 / 2 ^ 33)) = of_int (- 4897986199638714) * 2 powi (- 34 - 52)"
    by (rule round_double_evalI) (simp_all add: min_exponent_def round_half_even_def)
  then show ?thesis
    by simp
qed

lemma velocity_4752: "double_mul (- (8565777157196471 / 2 ^ 105)) (2575197605394907 / 2 ^ 33) = Returns (- (2448993099819357 / 2 ^ 85))"
  unfolding double_mul_def double_of_def Let_def rd_velocity_4752 by simp

lemma to_vel_wav_double_4752:
  "to_vel_wav_double \<lparr>val = 5350276357316149 / 2 ^ 50, unit = u_um_double\<rparr> (3265549534494719 / 2 ^ 36)
     = Returns (- (2448993099819357 / 2 ^ 85))"
  by (simp only: to_vel_wav_double_def to_value_double_4752 obind.simps xx_4752 rr_4752
      numerator_4752 denominator_4752 ratio_4752 ckms_double_value velocity_4752)

lemma to_doppler_velocity_double_4752:
  "to_doppler_velocity_double \<lparr>val = 5350276357316149 / 2 ^ 50, unit = u_um_double\<rparr>
      \<lparr>val = 5350276357316149 / 2 ^ 50, unit = u_um_double\<rparr>
     = Returns \<lparr>val = - (2448993099819357 / 2 ^ 85), unit = u_km_s\<rparr>"
  by (simp only: to_doppler_velocity_double_def quantity.select_convs lengths_double simp_thms
      if_True unit_to_double_AA_um obind.simps x_angstrom_4752 to_vel_wav_double_4752)

lemma min_normal_le: "(2::real) powi min_exponent \<le> 1 / 2 ^ 1000"
proof -
  have "(2::real) powi min_exponent \<le> 2 powi (- 1000)"
    unfolding two_powi_le_iff by (simp add: min_exponent_def)
  also have "(2::real) powi (- 1000) = 1 / 2 ^ 1000"
    by (simp add: power_int_minus_divide)
  finally show ?thesis .
qed

lemma round_double_positive:
  assumes "1 / 2 ^ 1000 \<le> x" and "x \<le> 2 ^ 1000"
  shows "double_of x = Returns (round_double x)"
    and "x * (1 - 1 / 2 ^ 53) \<le> round_double x"
    and "round_double x \<le> x * (1 + 1 / 2 ^ 53)"
proof -
  have "(0::real) < 1 / 2 ^ 1000"
    by simp
  then have x: "0 < x"
    using assms(1) by linarith
  have n: "2 powi min_exponent \<le> \<bar>x\<bar>"
    using min_normal_le assms(1) x by linarith
  define d where "d = x / 2 ^ 53"
  have e: "\<bar>round_double x - x\<bar> \<le> d"
    using round_double_rel_error [OF n] x by (simp add: d_def)
  have d: "x * (1 - 1 / 2 ^ 53) = x - d" "x * (1 + 1 / 2 ^ 53) = x + d"
    by (simp_all add: d_def algebra_simps)
  show lo: "x * (1 - 1 / 2 ^ 53) \<le> round_double x"
    unfolding d using e by linarith
  show hi: "round_double x \<le> x * (1 + 1 / 2 ^ 53)"
    unfolding d using e by linarith
  have "x * (1 + 1 / 2 ^ 53) \<le> 2 ^ 1000 * (1 + 1 / 2 ^ 53)"
    using assms(2) by (intro mult_right_mono) simp_all
  also have "\<dots> < (2::real) ^ 1024"
    by simp
  finally have "round_double x < 2 ^ 1024"
    using hi by linarith
  moreover have "0 \<le> round_double x"
    using x by (intro round_double_nonneg) simp
  ultimately show "double_of x = Returns (round_double x)"
    by (simp add: double_of_def Let_def)
qed

lemma round_double_bounded:
  assumes "\<bar>z\<bar> \<le> m" and "1 / 2 ^ 1000 \<le> m" and "m \<le> 2 ^ 1000"
  shows "double_of z = Returns (round_double z)"
    and "\<bar>round_double z\<bar> \<le> m * (1 + 1 / 2 ^ 53)"
proof -
  have "(0::real) < 1 / 2 ^ 1000"
    by simp
  then have m: "0 < m"
    using assms(2) by linarith
  have n: "2 powi min_exponent \<le> \<bar>m\<bar>"
    using min_normal_le assms(2) m by linarith
  have "\<bar>z\<bar> \<le> \<bar>m\<bar>"
    using assms(1) m by simp
  then have "binade z \<le> binade m"
    by (rule binade_mono)
  then have "(2::real) powi (binade z) \<le> 2 powi (binade m)"
    by (simp only: two_powi_le_iff)
  also have "\<dots> \<le> m"
    using binade_normal(1) [OF n] m by simp
  finally have b: "2 powi (binade z) / 2 ^ 53 \<le> m / 2 ^ 53"
    by (simp add: divide_right_mono)
  have "\<bar>round_double z - z\<bar> \<le> 2 powi (binade z) / 2 ^ 53"
    using round_double_abs_error [of z] by (simp only: two_powi_half)
  then have "\<bar>round_double z - z\<bar> \<le> m / 2 ^ 53"
    using b by linarith
  moreover have "m * (1 + 1 / 2 ^ 53) = m + m / 2 ^ 53"
    by (simp add: algebra_simps)
  ultimately show hi: "\<bar>round_double z\<bar> \<le> m * (1 + 1 / 2 ^ 53)"
    using assms(1) by linarith
  have "m * (1 + 1 / 2 ^ 53) \<le> 2 ^ 1000 * (1 + 1 / 2 ^ 53)"
    using assms(3) by (intro mult_right_mono) simp_all
  also have "\<dots> < (2::real) ^ 1024"
    by simp
  finally have "\<bar>round_double z\<bar> < 2 ^ 1024"
    using hi by linarith
  then show "double_of z = Returns (round_double z)"
    by (simp add: double_of_def Let_def)
qed

lemma doppler_budget_constants:
  fixes k K g :: real
  assumes "k = 1 - 1 / 2 ^ 53" and "K = 1 + 1 / 2 ^ 53" and "g = 1 + 10 / 2 ^ 53"
  shows "0 < k" "k \<le> 1" "1 \<le> K" "K \<le> 2" "1 \<le> g" "g \<le> 2"
    and "1 / g \<le> k / K" and "K / k \<le> g"
    and "1 / g \<le> k * k" and "K * K \<le> g"
    and "1 / g \<le> k / (1 + 4 / 2 ^ 52)" and "K / (1 - 4 / 2 ^ 53) \<le> g"
    and "(K * g ^ 4 / k - 1) * K / (2 * k) * K * (2575197605394907 / 2 ^ 33) * K \<le> 1 / 10 ^ 9"
    and "1 / 2 ^ 100 \<le> K * g\<^sup>2 - k / g\<^sup>2"
    and "1 / 2 ^ 100 \<le> (K * g ^ 4 / k - 1) * K / (2 * k)"
    and "(K * g ^ 4 / k - 1) * K / (2 * k) \<le> 1"
  unfolding assms by (simp_all add: power_divide field_simps)

lemma square_between:
  fixes W x g :: real
  assumes "0 < W" and "1 \<le> g" and "W / g \<le> x" and "x \<le> W * g"
  shows "W\<^sup>2 / g\<^sup>2 \<le> x\<^sup>2" and "x\<^sup>2 \<le> W\<^sup>2 * g\<^sup>2"
proof -
  have p: "0 \<le> W / g" using assms(1,2) by simp
  then have x: "0 \<le> x" using assms(3) by linarith
  have "(W / g)\<^sup>2 \<le> x\<^sup>2"
    using assms(3) p by (rule power_mono)
  then show "W\<^sup>2 / g\<^sup>2 \<le> x\<^sup>2"
    by (simp add: power_divide)
  have "x\<^sup>2 \<le> (W * g)\<^sup>2"
    using assms(4) x by (rule power_mono)
  then show "x\<^sup>2 \<le> W\<^sup>2 * g\<^sup>2"
    by (simp add: power_mult_distrib)
qed

text \<open>
  Claim C5, as amended. A zero wavelength shift converts to a velocity that is 0 up
  to the rounding of the double arithmetic: for a wavelength \<open>w\<close> with a value between
  \<open>2 ^ -200\<close> and \<open>2 ^ 200\<close>, in a length unit of between \<open>2 ^ -200\<close> and \<open>2 ^ 200\<close>
  angstrom, converting \<open>w\<close> through the equivalency anchored at \<open>w\<close> returns a velocity
  of magnitude at most \<open>1e-9\<close> km/s.
\<close>

theorem doppler_zero_shift_double:
  assumes exps: "has_exps (unit w) 1 0 0 0"
    and v1: "1 / 2 ^ 200 \<le> val w" and v2: "val w \<le> 2 ^ 200"
    and b1: "1 / 2 ^ 200 \<le> scale (unit w) / scale u_AA_double"
    and b2: "scale (unit w) / scale u_AA_double \<le> 2 ^ 200"
  shows "\<exists>V. to_doppler_velocity_double w w = Returns \<lparr>val = V, unit = u_km_s\<rparr>
      \<and> \<bar>V\<bar> \<le> 1 / 10 ^ 9"
proof -
  define sA where "sA = scale u_AA_double"
  define su where "su = scale (unit w)"
  define v where "v = val w"
  define b where "b = su / sA"
  define a where "a = sA / su"
  define W where "W = v * b"
  define k :: real where "k = 1 - 1 / 2 ^ 53"
  define K :: real where "K = 1 + 1 / 2 ^ 53"
  define g :: real where "g = 1 + 10 / 2 ^ 53"
  note c = doppler_budget_constants [OF k_def K_def g_def]
  have n: "(1::real) / 2 ^ 1000 \<le> 1 / 2 ^ 200" "(2::real) ^ 200 \<le> 2 ^ 1000"
    "(1::real) / 2 ^ 1000 \<le> 1 / 2 ^ 400 / 2" "(2::real) ^ 400 / (1 / 2) \<le> 2 ^ 1000"
    "(1::real) / 2 ^ 1000 \<le> 1 / 2 ^ 400 * (1 / 2)" "(2::real) ^ 400 * 2 \<le> 2 ^ 1000"
    "(1::real) / 2 ^ 1000 \<le> 1 / 2 ^ 800 / 4" "(2::real) ^ 800 * 4 \<le> 2 ^ 1000"
    "(1::real) / 2 ^ 1000 \<le> 1 / 2 ^ 900" "(2::real) ^ 900 + 2 ^ 900 \<le> 2 ^ 1000"
    "(1::real) / 2 ^ 1000 \<le> 1 / 2 ^ 100" "(1::real) \<le> 2 ^ 1000"
    by simp_all
  have sA: "0 < sA"
    by (simp add: sA_def scale_u_AA_double)
  have small: "(0::real) < 1 / 2 ^ 200"
    by simp
  have bl: "1 / 2 ^ 200 \<le> b" and bu: "b \<le> 2 ^ 200"
    using b1 b2 by (simp_all add: b_def su_def sA_def)
  have b: "0 < b"
    using bl small by linarith
  then have su: "0 < su"
    using sA by (simp add: b_def zero_less_divide_iff)
  have ab: "a = 1 / b"
    using sA su by (simp add: a_def b_def)
  have a: "0 < a"
    using b by (simp add: ab)
  have al: "1 / 2 ^ 200 \<le> a"
    unfolding ab using b bu by (simp add: field_simps)
  have au: "a \<le> 2 ^ 200"
    unfolding ab using b bl by (simp add: field_simps)
  have vl: "1 / 2 ^ 200 \<le> v" and vu: "v \<le> 2 ^ 200"
    using v1 v2 by (simp_all add: v_def)
  have v: "0 < v"
    using vl small by linarith
  have W: "0 < W"
    using v b by (simp add: W_def)
  have Wa: "W = v / a"
    using b by (simp add: W_def ab)
  have "1 / 2 ^ 200 * (1 / 2 ^ 200) \<le> v * b"
    using vl bl by (intro mult_mono) simp_all
  moreover have "(1::real) / 2 ^ 400 \<le> 1 / 2 ^ 200 * (1 / 2 ^ 200)"
    by simp
  ultimately have Wl: "1 / 2 ^ 400 \<le> W"
    unfolding W_def by linarith
  have "v * b \<le> 2 ^ 200 * 2 ^ 200"
    using vu bu v b by (intro mult_mono) simp_all
  moreover have "(2::real) ^ 200 * 2 ^ 200 \<le> 2 ^ 400"
    by simp
  ultimately have Wu: "W \<le> 2 ^ 400"
    unfolding W_def by linarith
  \<comment> \<open>the factor from angstrom to the unit, and the shifted wavelength in angstrom\<close>
  define s1 where "s1 = round_double a"
  have "1 / 2 ^ 1000 \<le> a" and "a \<le> 2 ^ 1000"
    using al au n(1,2) by linarith+
  then have s1: "double_of a = Returns s1" "a * k \<le> s1" "s1 \<le> a * K"
    unfolding s1_def k_def K_def by (rule round_double_positive)+
  have "0 < a * k"
    using a c(1) by simp
  then have s1p: "0 < s1"
    using s1(2) by linarith
  have same: "same_dimension u_AA_double (unit w)" "same_dimension (unit w) u_AA_double"
    using exps by (simp_all add: same_dimension_def has_exps_def u_AA_double_def)
  have f1: "unit_to_double u_AA_double (unit w) = Returns s1"
    using same su s1(1) by (simp add: unit_to_double_def double_div_def sA_def su_def a_def)
  define q where "q = v / s1"
  have ql: "W / K \<le> q"
  proof -
    have "v / (a * K) \<le> v / s1"
      using s1(3) s1p v by (intro divide_left_mono) (simp_all add: less_imp_le)
    then show ?thesis
      by (simp add: Wa q_def)
  qed
  have qu: "q \<le> W / k"
  proof -
    have "v / s1 \<le> v / (a * k)"
      using s1(2) s1p a c(1) v by (intro divide_left_mono) (simp_all add: less_imp_le)
    then show ?thesis
      by (simp add: Wa q_def)
  qed
  have qp: "0 < q"
    using v s1p by (simp add: q_def)
  have "1 / 2 ^ 400 / 2 \<le> W / K"
    using Wl c(3,4) W by (intro frac_le) simp_all
  then have q1: "1 / 2 ^ 1000 \<le> q"
    using ql n(3) by linarith
  have "W / k \<le> 2 ^ 400 / (1 / 2)"
    using Wu c(1) W by (intro frac_le) (simp_all add: k_def)
  then have q2: "q \<le> 2 ^ 1000"
    using qu n(4) by linarith
  define xa where "xa = round_double q"
  have xa: "double_of q = Returns xa" "q * k \<le> xa" "xa \<le> q * K"
    unfolding xa_def k_def K_def using q1 q2 by (rule round_double_positive)+
  have f2: "double_div v s1 = Returns xa"
    using s1p xa(1) by (simp add: double_div_def q_def)
  have xal: "W / g \<le> xa"
  proof -
    have "W / g = W * (1 / g)" by simp
    also have "\<dots> \<le> W * (k / K)"
      using W c(7) by (intro mult_left_mono) simp_all
    also have "\<dots> = W / K * k" by simp
    also have "\<dots> \<le> q * k"
      using ql c(1) by (intro mult_right_mono) simp_all
    finally show ?thesis
      using xa(2) by linarith
  qed
  have xau: "xa \<le> W * g"
  proof -
    have "q * K \<le> W / k * K"
      using qu c(3) by (intro mult_right_mono) simp_all
    also have "\<dots> = W * (K / k)" by simp
    also have "\<dots> \<le> W * g"
      using W c(8) by (intro mult_left_mono) simp_all
    finally show ?thesis
      using xa(3) by linarith
  qed
  \<comment> \<open>the factor from the unit to angstrom, and the rest wavelength in angstrom\<close>
  define s2 where "s2 = round_double b"
  have "1 / 2 ^ 1000 \<le> b" and "b \<le> 2 ^ 1000"
    using bl bu n(1,2) by linarith+
  then have s2: "double_of b = Returns s2" "b * k \<le> s2" "s2 \<le> b * K"
    unfolding s2_def k_def K_def by (rule round_double_positive)+
  have f3: "unit_to_double (unit w) u_AA_double = Returns s2"
    using same sA s2(1) by (simp add: unit_to_double_def double_div_def sA_def su_def b_def)
  have "\<exists>R. to_value_double w u_AA_double = Returns R \<and> W / g \<le> R \<and> R \<le> W * g"
  proof (cases "is_effectively_unity s2")
    case True
    then have u: "1 - 4 / 2 ^ 53 \<le> s2" "s2 \<le> 1 + 4 / 2 ^ 52"
      by (simp_all add: is_effectively_unity_def)
    have r: "to_value_double w u_AA_double = Returns v"
      using True by (simp add: to_value_double_def f3 v_def)
    define u0 :: real where "u0 = 1 - 4 / 2 ^ 53"
    define u1 :: real where "u1 = 1 + 4 / 2 ^ 52"
    have up: "0 < u0" "0 < u1"
      by (simp_all add: u0_def u1_def)
    have "W * k = v * (b * k)"
      by (simp add: W_def)
    also have "\<dots> \<le> v * u1"
      using s2(2) u(2) v unfolding u1_def by (intro mult_left_mono) linarith+
    finally have "W * k / u1 \<le> v"
      using up(2) by (simp add: pos_divide_le_eq)
    moreover have "W * (1 / g) \<le> W * (k / u1)"
      using W c(11) unfolding u1_def by (intro mult_left_mono) simp_all
    moreover have "W / g = W * (1 / g)" "W * (k / u1) = W * k / u1"
      by simp_all
    ultimately have lo: "W / g \<le> v"
      by linarith
    have "v * u0 \<le> v * (b * K)"
      using s2(3) u(1) v unfolding u0_def by (intro mult_left_mono) linarith+
    also have "\<dots> = W * K"
      by (simp add: W_def)
    finally have "v \<le> W * K / u0"
      using up(1) by (simp add: pos_le_divide_eq)
    moreover have "W * (K / u0) \<le> W * g"
      using W c(12) unfolding u0_def by (intro mult_left_mono) simp_all
    moreover have "W * (K / u0) = W * K / u0"
      by simp
    ultimately have hi: "v \<le> W * g"
      by linarith
    show ?thesis
      using r lo hi by blast
  next
    case False
    define p where "p = v * s2"
    have pl: "W * k \<le> p"
      using s2(2) v by (simp add: p_def W_def mult.assoc)
    have pu: "p \<le> W * K"
      using s2(3) v by (simp add: p_def W_def mult.assoc)
    have "1 / 2 ^ 400 * (1 / 2) \<le> W * k"
      using Wl c(1) by (intro mult_mono) (simp_all add: k_def)
    then have p1: "1 / 2 ^ 1000 \<le> p"
      using pl n(5) by linarith
    have "W * K \<le> 2 ^ 400 * 2"
      using Wu c(3,4) W by (intro mult_mono) simp_all
    then have p2: "p \<le> 2 ^ 1000"
      using pu n(6) by linarith
    define R where "R = round_double p"
    have R: "double_of p = Returns R" "p * k \<le> R" "R \<le> p * K"
      unfolding R_def k_def K_def using p1 p2 by (rule round_double_positive)+
    have r: "to_value_double w u_AA_double = Returns R"
      using False R(1) by (simp add: to_value_double_def f3 double_mul_def p_def v_def)
    have "W * (1 / g) \<le> W * (k * k)"
      using W c(9) by (intro mult_left_mono) simp_all
    also have "\<dots> = W * k * k" by simp
    also have "\<dots> \<le> p * k"
      using pl c(1) by (intro mult_right_mono) simp_all
    finally have lo: "W / g \<le> R"
      using R(2) by simp
    have "p * K \<le> W * K * K"
      using pu c(3) by (intro mult_right_mono) simp_all
    also have "\<dots> = W * (K * K)" by simp
    also have "\<dots> \<le> W * g"
      using W c(10) by (intro mult_left_mono) simp_all
    finally have hi: "R \<le> W * g"
      using R(3) by simp
    show ?thesis
      using r lo hi by blast
  qed
  then obtain R where r: "to_value_double w u_AA_double = Returns R"
    and Rl: "W / g \<le> R" and Ru: "R \<le> W * g"
    by blast
  \<comment> \<open>the two squares\<close>
  define L where "L = W\<^sup>2 / g\<^sup>2 * k"
  define U where "U = W\<^sup>2 * g\<^sup>2 * K"
  have W2: "0 < W\<^sup>2" using W by simp
  have W2l: "1 / 2 ^ 800 \<le> W\<^sup>2"
  proof -
    have "(1 / 2 ^ 400)\<^sup>2 \<le> W\<^sup>2"
      using Wl by (intro power_mono) simp_all
    then show ?thesis by (simp add: power_divide)
  qed
  have W2u: "W\<^sup>2 \<le> 2 ^ 800"
  proof -
    have "W\<^sup>2 \<le> (2 ^ 400)\<^sup>2"
      using Wu W by (intro power_mono) simp_all
    then show ?thesis by simp
  qed
  have gg: "1 \<le> g\<^sup>2" "g\<^sup>2 \<le> 4"
  proof -
    show "1 \<le> g\<^sup>2" using c(5) by (simp add: one_le_power)
    have "g\<^sup>2 \<le> 2\<^sup>2" using c(5,6) by (intro power_mono) simp_all
    then show "g\<^sup>2 \<le> 4" by simp
  qed
  have g2p: "0 < g\<^sup>2"
    using gg(1) by linarith
  have Ll: "1 / 2 ^ 900 \<le> L"
  proof -
    have "1 / 2 ^ 800 / 4 \<le> W\<^sup>2 / g\<^sup>2"
      by (rule frac_le [OF _ W2l g2p gg(2)]) simp
    then have "1 / 2 ^ 800 / 4 * (1 / 2) \<le> W\<^sup>2 / g\<^sup>2 * k"
      using c(1) by (intro mult_mono) (simp_all add: k_def)
    moreover have "(1::real) / 2 ^ 900 \<le> 1 / 2 ^ 800 / 4 * (1 / 2)"
      by simp
    ultimately show ?thesis
      unfolding L_def by linarith
  qed
  have Uu: "U \<le> 2 ^ 900"
  proof -
    have w4: "W\<^sup>2 * g\<^sup>2 \<le> 2 ^ 800 * 4"
      by (rule mult_mono [OF W2u gg(2)]) (use g2p in simp_all)
    have Kp: "0 \<le> K"
      using c(3) by linarith
    have "W\<^sup>2 * g\<^sup>2 * K \<le> 2 ^ 800 * 4 * 2"
      by (rule mult_mono [OF w4 c(4) _ Kp]) simp
    moreover have "(2::real) ^ 800 * 4 * 2 \<le> 2 ^ 900"
      by simp
    ultimately show ?thesis
      unfolding U_def by linarith
  qed
  have Lp: "0 < L"
    using W2 c(1,5) by (simp add: L_def)
  have stage: "\<exists>y. double_mul x x = Returns y \<and> L \<le> y \<and> y \<le> U"
    if xl: "W / g \<le> x" and xu: "x \<le> W * g" for x
  proof -
    have sq: "W\<^sup>2 / g\<^sup>2 \<le> x\<^sup>2" "x\<^sup>2 \<le> W\<^sup>2 * g\<^sup>2"
      using W c(5) xl xu by (rule square_between)+
    have "1 / 2 ^ 800 / 4 \<le> W\<^sup>2 / g\<^sup>2"
      by (rule frac_le [OF _ W2l g2p gg(2)]) simp
    then have x1: "1 / 2 ^ 1000 \<le> x\<^sup>2"
      using sq(1) n(7) by linarith
    have "W\<^sup>2 * g\<^sup>2 \<le> 2 ^ 800 * 4"
      by (rule mult_mono [OF W2u gg(2)]) (use g2p in simp_all)
    then have x2: "x\<^sup>2 \<le> 2 ^ 1000"
      using sq(2) n(8) by linarith
    define y where "y = round_double (x\<^sup>2)"
    have y: "double_of (x\<^sup>2) = Returns y" "x\<^sup>2 * k \<le> y" "y \<le> x\<^sup>2 * K"
      unfolding y_def k_def K_def using x1 x2 by (rule round_double_positive)+
    have "L \<le> x\<^sup>2 * k"
      unfolding L_def using sq(1) c(1) by (intro mult_right_mono) simp_all
    moreover have "x\<^sup>2 * K \<le> U"
      unfolding U_def using sq(2) c(3) by (intro mult_right_mono) simp_all
    ultimately show ?thesis
      using y by (auto simp add: double_mul_def power2_eq_square)
  qed
  obtain xx where xx: "double_mul xa xa = Returns xx" "L \<le> xx" "xx \<le> U"
    using stage [OF xal xau] by blast
  obtain rr where rr: "double_mul R R = Returns rr" "L \<le> rr" "rr \<le> U"
    using stage [OF Rl Ru] by blast
  \<comment> \<open>numerator and denominator\<close>
  define M where "M = U - L"
  have Mv: "M = W\<^sup>2 * (K * g\<^sup>2 - k / g\<^sup>2)"
    by (simp add: M_def U_def L_def algebra_simps)
  have Ml: "1 / 2 ^ 1000 \<le> M"
  proof -
    have "1 / 2 ^ 800 * (1 / 2 ^ 100) \<le> W\<^sup>2 * (K * g\<^sup>2 - k / g\<^sup>2)"
      using W2l c(14) by (intro mult_mono) simp_all
    moreover have "(1::real) / 2 ^ 1000 \<le> 1 / 2 ^ 800 * (1 / 2 ^ 100)"
      by simp
    ultimately show ?thesis
      unfolding Mv by linarith
  qed
  have "(2::real) ^ 900 \<le> 2 ^ 1000"
    by simp
  then have Mu: "M \<le> 2 ^ 1000"
    using Uu Lp unfolding M_def by linarith
  have "\<bar>xx - rr\<bar> \<le> M"
    using xx(2,3) rr(2,3) by (simp add: M_def abs_le_iff)
  then have num: "double_of (xx - rr) = Returns (round_double (xx - rr))"
    "\<bar>round_double (xx - rr)\<bar> \<le> M * K"
    unfolding K_def using Ml Mu by (rule round_double_bounded)+
  define N where "N = round_double (xx - rr)"
  have fN: "double_sub xx rr = Returns N"
    using num(1) by (simp add: double_sub_def N_def)
  have Nb: "\<bar>N\<bar> \<le> M * K"
    using num(2) by (simp add: N_def)
  have s1000: "1 / 2 ^ 1000 \<le> rr + xx"
    using Ll xx(2) rr(2) Lp n(9) by linarith
  have "rr + xx \<le> 2 ^ 900 + 2 ^ 900"
    using Uu xx(3) rr(3) by linarith
  then have s1001: "rr + xx \<le> 2 ^ 1000"
    using n(10) by linarith
  define D where "D = round_double (rr + xx)"
  have D: "double_of (rr + xx) = Returns D" "(rr + xx) * k \<le> D"
    unfolding D_def k_def using s1000 s1001 by (rule round_double_positive)+
  have fD: "double_add rr xx = Returns D"
    using D(1) by (simp add: double_add_def)
  have "(L + L) * k \<le> (rr + xx) * k"
    using xx(2) rr(2) c(1) by (intro mult_right_mono) simp_all
  then have Dl: "2 * L * k \<le> D"
    using D(2) by simp
  have "0 < 2 * L * k"
    using Lp c(1) by simp
  then have Dp: "0 < D"
    using Dl by linarith
  \<comment> \<open>the ratio and the velocity\<close>
  define q0 where "q0 = (K * g ^ 4 / k - 1) * K / (2 * k)"
  have "\<bar>N / D\<bar> = \<bar>N\<bar> / D"
    using Dp by simp
  also have "\<dots> \<le> M * K / (2 * L * k)"
    using Nb Dl Lp c(1) by (intro frac_le) simp_all
  also have "\<dots> = q0"
    using W c(1,5) by (simp add: Mv L_def q0_def field_simps power2_eq_square power4_eq_xxxx)
  finally have nd: "\<bar>N / D\<bar> \<le> q0" .
  have q0l: "1 / 2 ^ 1000 \<le> q0" and q0u: "q0 \<le> 2 ^ 1000"
    using c(15,16) n(11,12) unfolding q0_def by linarith+
  define Q where "Q = round_double (N / D)"
  have Q: "double_of (N / D) = Returns Q" "\<bar>Q\<bar> \<le> q0 * K"
    unfolding Q_def K_def using nd q0l q0u by (rule round_double_bounded)+
  have fQ: "double_div N D = Returns Q"
    using Dp Q(1) by (simp add: double_div_def)
  define ck :: real where "ck = 2575197605394907 / 2 ^ 33"
  have ck: "ckms_double = ck" "0 < ck"
    by (simp_all add: ck_def ckms_double_value)
  define m where "m = q0 * K * ck"
  have "\<bar>Q * ck\<bar> = \<bar>Q\<bar> * ck"
    using ck(2) by (simp add: abs_mult)
  also have "\<dots> \<le> m"
    unfolding m_def using Q(2) ck(2) by (intro mult_right_mono) simp_all
  finally have qc: "\<bar>Q * ck\<bar> \<le> m" .
  have "(0::real) \<le> 1 / 2 ^ 1000"
    by simp
  then have q0p: "0 \<le> q0"
    using q0l by linarith
  have ck1: "1 \<le> ck"
    by (simp add: ck_def)
  have "q0 * 1 \<le> q0 * K"
    using c(3) q0p by (rule mult_left_mono)
  then have qK: "q0 \<le> q0 * K"
    by simp
  then have qKp: "0 \<le> q0 * K"
    using q0p by linarith
  have "q0 * K * 1 \<le> q0 * K * ck"
    using ck1 qKp by (rule mult_left_mono)
  then have qm: "q0 * K \<le> m"
    by (simp add: m_def)
  have ml: "1 / 2 ^ 1000 \<le> m"
    using qm qK q0l by linarith
  have mK: "m * K \<le> 1 / 10 ^ 9"
    using c(13) by (simp add: m_def q0_def ck_def)
  have mp: "0 \<le> m"
    using qm qKp by linarith
  have mu: "m \<le> 2 ^ 1000"
  proof -
    have "m * 1 \<le> m * K"
      using c(3) mp by (intro mult_left_mono) simp_all
    moreover have "(1::real) / 10 ^ 9 \<le> 2 ^ 1000"
      by simp
    ultimately show ?thesis
      using mK by linarith
  qed
  define V where "V = round_double (Q * ck)"
  have V: "double_of (Q * ck) = Returns V" "\<bar>V\<bar> \<le> m * K"
    unfolding V_def K_def using qc ml mu by (rule round_double_bounded)+
  have fV: "double_mul Q ckms_double = Returns V"
    using V(1) by (simp add: double_mul_def ck(1))
  have "to_vel_wav_double w xa = Returns V"
    by (simp add: to_vel_wav_double_def r xx(1) rr(1) fN fD fQ fV)
  then have "to_doppler_velocity_double w w = Returns \<lparr>val = V, unit = u_km_s\<rparr>"
    using exps f1 f2 by (simp add: to_doppler_velocity_double_def v_def)
  moreover have "\<bar>V\<bar> \<le> 1 / 10 ^ 9"
    using V(2) mK by linarith
  ultimately show ?thesis
    by blast
qed

theorem doppler_zero_shift_double_witness:
  "has_exps (unit \<lparr>val = 5350276357316149 / 2 ^ 50, unit = u_um_double\<rparr>) 1 0 0 0
   \<and> 1 / 2 ^ 200 \<le> val \<lparr>val = 5350276357316149 / 2 ^ 50, unit = u_um_double\<rparr>
   \<and> val \<lparr>val = 5350276357316149 / 2 ^ 50, unit = u_um_double\<rparr> \<le> 2 ^ 200
   \<and> 1 / 2 ^ 200 \<le> scale u_um_double / scale u_AA_double
   \<and> scale u_um_double / scale u_AA_double \<le> 2 ^ 200
   \<and> to_doppler_velocity_double \<lparr>val = 5350276357316149 / 2 ^ 50, unit = u_um_double\<rparr>
        \<lparr>val = 5350276357316149 / 2 ^ 50, unit = u_um_double\<rparr>
       = Returns \<lparr>val = - (2448993099819357 / 2 ^ 85), unit = u_km_s\<rparr>
   \<and> \<bar>- (2448993099819357 / 2 ^ 85) :: real\<bar> \<le> 1 / 10 ^ 9"
proof -
  let ?w = "\<lparr>val = 5350276357316149 / 2 ^ 50, unit = u_um_double\<rparr>"
  have h: "has_exps (unit ?w) 1 0 0 0"
    "1 / 2 ^ 200 \<le> val ?w" "val ?w \<le> 2 ^ 200"
    "1 / 2 ^ 200 \<le> scale (unit ?w) / scale u_AA_double"
    "scale (unit ?w) / scale u_AA_double \<le> 2 ^ 200"
    by (simp_all add: lengths_double scale_u_um_double scale_u_AA_double)
  obtain V where V: "to_doppler_velocity_double ?w ?w = Returns \<lparr>val = V, unit = u_km_s\<rparr>"
    "\<bar>V\<bar> \<le> 1 / 10 ^ 9"
    using doppler_zero_shift_double [OF h] by blast
  have "V = - (2448993099819357 / 2 ^ 85)"
    using V(1) to_doppler_velocity_double_4752 by simp
  then show ?thesis
    using h V to_doppler_velocity_double_4752 by simp
qed

text \<open>
  Claim C5, as stated, fails: for the wavelength 4.752 micrometre, shifted and rest
  alike, the division by the factor from angstrom to micrometre gives
  47519.999999999985 angstrom and the multiplication by the factor from micrometre to
  angstrom gives 47519.99999999999 angstrom, and the velocity is
  \<open>-6.33049878889598e-11\<close> km/s (\<open>-2448993099819357 / 2 ^ 85\<close>), not 0.
\<close>

theorem doppler_zero_shift_counterexample:
  "round_double 4.752 = 5350276357316149 / 2 ^ 50
   \<and> to_doppler_velocity_double \<lparr>val = 5350276357316149 / 2 ^ 50, unit = u_um_double\<rparr>
        \<lparr>val = 5350276357316149 / 2 ^ 50, unit = u_um_double\<rparr>
       = Returns \<lparr>val = - (2448993099819357 / 2 ^ 85), unit = u_km_s\<rparr>
   \<and> - (2448993099819357 / 2 ^ 85) \<noteq> (0::real)"
  using rd_4752 to_doppler_velocity_double_4752 by simp

end
